theory Spec2Isabelle
  imports Main "HOL-Library.Char_ord" "HOL-Library.List_Lexorder" "HOL-Library.Product_Lexorder"
    "HOL-Library.Multiset"
begin

section \<open>JavaScript values and string operations\<close>

text \<open>
  Strings are sequences of 8-bit code units (header values reach the program decoded as
  Latin-1). A \<open>jsval\<close> is a value of a payload; its numbers are integers (row ids and
  UNIX times). A \<open>jsnumber\<close> is a value of type number: NaN, an integer, an infinity
  (\<open>True\<close> for the negative one), or a number that is not an integer, whose value plays
  no part here.
\<close>

datatype jsval = Undefined | Null | Bool bool | Num int | Str string

datatype jsnumber = NaN | Number int | Infinity bool | Fractional

datatype error = Error string | TypeError string

definition is_digit :: "char \<Rightarrow> bool" where
  "is_digit c = (c \<in> set ''0123456789'')"

definition safe_integer :: "int \<Rightarrow> bool" where
  "safe_integer n = (\<bar>n\<bar> \<le> 2 ^ 53 - 1)"

text \<open>White space of \<open>String.prototype.trim\<close> and of \<open>parseInt\<close>, among the 8-bit code units.\<close>

definition is_space :: "char \<Rightarrow> bool" where
  "is_space c = (c \<in> set [CHR 0x09, CHR 0x0A, CHR 0x0B, CHR 0x0C, CHR 0x0D, CHR 0x20, CHR 0xA0])"

definition js_trim :: "string \<Rightarrow> string" where
  "js_trim s = rev (dropWhile is_space (rev (dropWhile is_space s)))"

definition to_lower :: "char \<Rightarrow> char" where
  "to_lower c =
     (let n = (of_char c :: nat)
      in if (65 \<le> n \<and> n \<le> 90) \<or> (192 \<le> n \<and> n \<le> 222 \<and> n \<noteq> 215) then char_of (n + 32) else c)"

definition toLowerCase :: "string \<Rightarrow> string" where
  "toLowerCase s = map to_lower s"

definition startsWith :: "string \<Rightarrow> string \<Rightarrow> bool" where
  "startsWith s p = (take (length p) s = p)"

text \<open>\<open>s.split(c)\<close> for a separator of one character; the limit of \<open>split(c, 2)\<close> is a \<open>take\<close>.\<close>

fun split_on :: "char \<Rightarrow> string \<Rightarrow> string list" where
  "split_on c [] = [[]]"
| "split_on c (x # xs) =
     (if x = c then [] # split_on c xs
      else (case split_on c xs of [] \<Rightarrow> [[x]] | y # ys \<Rightarrow> (x # y) # ys))"

text \<open>\<open>s.replace(/^"|"$/g, "")\<close>: a quote at the start goes, then a quote at the end.\<close>

definition strip_quotes :: "string \<Rightarrow> string" where
  "strip_quotes s =
     (let s1 = (case s of [] \<Rightarrow> [] | c # r \<Rightarrow> (if c = CHR 0x22 then r else s))
      in if s1 \<noteq> [] \<and> last s1 = CHR 0x22 then butlast s1 else s1)"

text \<open>\<open>String(n)\<close> of an integer: its decimal digits, with a minus sign below zero.\<close>

definition digit_char :: "nat \<Rightarrow> char" where
  "digit_char d = char_of (48 + d)"

fun nat_digits :: "nat \<Rightarrow> string" where
  "nat_digits n = (if n < 10 then [digit_char n] else nat_digits (n div 10) @ [digit_char (n mod 10)])"

definition number_to_string :: "int \<Rightarrow> string" where
  "number_to_string n = (if n < 0 then CHR ''-'' # nat_digits (nat (- n)) else nat_digits (nat n))"

definition js_String :: "jsval \<Rightarrow> string" where
  "js_String v =
     (case v of Undefined \<Rightarrow> ''undefined'' | Null \<Rightarrow> ''null''
      | Bool b \<Rightarrow> (if b then ''true'' else ''false'')
      | Num n \<Rightarrow> number_to_string n | Str s \<Rightarrow> s)"

text \<open>
  The number value of a mathematical integer: the nearest double, ties to even. Below
  \<open>2 ^ 53\<close> every integer is a double; from there on the integer is cut to 53 significant
  bits and rounded, and a result of \<open>2 ^ 1024\<close> or more is an infinity.
\<close>

fun bit_length :: "nat \<Rightarrow> nat" where
  "bit_length n = (if n = 0 then 0 else Suc (bit_length (n div 2)))"

definition round_to_double :: "int \<Rightarrow> jsnumber" where
  "round_to_double n =
     (let m = nat \<bar>n\<bar> in
      if m < 2 ^ 53 then Number n
      else
        (let k = bit_length m - 53;
             q = m div 2 ^ k;
             r = m mod 2 ^ k;
             h = 2 ^ (k - 1);
             q' = (if h < r \<or> (r = h \<and> odd q) then q + 1 else q);
             v = q' * 2 ^ k
         in if 2 ^ 1024 \<le> v then Infinity (n < 0)
            else Number (if n < 0 then - int v else int v)))"

text \<open>
  \<open>parseInt(s, 10)\<close>: leading white space is skipped, one sign is read, then the longest
  run of decimal digits (\<open>parse_integer\<close>); with no digit the result is NaN, otherwise
  the number value of the integer read.
\<close>

definition digit_val :: "char \<Rightarrow> int" where
  "digit_val c = int (of_char c) - 48"

definition digits_value :: "string \<Rightarrow> int" where
  "digits_value z = foldl (\<lambda>a c. 10 * a + digit_val c) 0 z"

definition parse_integer :: "string \<Rightarrow> int option" where
  "parse_integer s =
     (let s1 = dropWhile is_space s;
          sign = (case s1 of [] \<Rightarrow> 1 | c # r \<Rightarrow> (if c = CHR ''-'' then - 1 else 1));
          s2 = (case s1 of [] \<Rightarrow> [] | c # r \<Rightarrow> (if c = CHR ''-'' \<or> c = CHR ''+'' then r else s1));
          z = takeWhile is_digit s2
      in if z = [] then None else Some (sign * digits_value z))"

definition parseInt :: "string \<Rightarrow> jsnumber" where
  "parseInt s = (case parse_integer s of None \<Rightarrow> NaN | Some n \<Rightarrow> round_to_double n)"

section \<open>Patient queue (db.ts)\<close>

text \<open>
  A row of the \<open>patients\<close> table, with the columns of the CREATE TABLE statement of
  \<open>initDb\<close>. The columns \<open>priority\<close> and \<open>status\<close> are VARCHAR columns, so they are
  strings here too. The integer key is an \<open>int\<close>.
\<close>

record patient =
  pid :: int
  name :: string
  problem :: string
  priority :: string
  arrivalTime :: string
  status :: string

text \<open>
  The object that the storage client hands back for a selected row (\<open>PatientRow\<close>): the
  three spellings of the arrival column are optional fields.
\<close>

record PatientRow =
  r_id :: int
  r_name :: string
  r_problem :: string
  r_priority :: string
  r_arrivalTime :: "string option"
  r_arrivaltime :: "string option"
  r_arrival_time :: "string option"
  r_status :: string

text \<open>
  The table together with the counter of its SERIAL key. A row inserted without an id
  takes the counter's value; the counter advances whether or not the insert succeeds.
\<close>

record patients_table =
  rows :: "patient list"
  next_id :: int

text \<open>JavaScript's \<open>a || b\<close> on optional strings: \<open>undefined\<close> and the empty string are falsy.\<close>

definition js_or :: "string option \<Rightarrow> string option \<Rightarrow> string option" where
  "js_or a b = (case a of None \<Rightarrow> b | Some s \<Rightarrow> (if s = [] then b else Some s))"

definition rowToPatient :: "PatientRow \<Rightarrow> patient" where
  "rowToPatient r =
     (let arrival = (case js_or (js_or (js_or (r_arrivalTime r) (r_arrivaltime r)) (r_arrival_time r)) (Some [])
                     of None \<Rightarrow> [] | Some s \<Rightarrow> s)
      in \<lparr>pid = r_id r, name = r_name r, problem = r_problem r, priority = r_priority r,
          arrivalTime = arrival, status = r_status r\<rparr>)"

text \<open>\<open>SELECT *\<close> and \<open>RETURNING *\<close>: the column is named \<open>"arrivalTime"\<close>, with that capitalisation.\<close>

definition select_star :: "patient \<Rightarrow> PatientRow" where
  "select_star p =
     \<lparr>r_id = pid p, r_name = name p, r_problem = problem p, r_priority = priority p,
      r_arrivalTime = Some (arrivalTime p), r_arrivaltime = None, r_arrival_time = None,
      r_status = status p\<rparr>"

text \<open>
  The ORDER BY clause of \<open>getAllPatients\<close>:
  \<open>CASE WHEN priority='Emergency' THEN 0 ELSE 1 END, "arrivalTime" ASC\<close>.
  The second key is a VARCHAR column, which the database orders by its collation: the
  argument \<open>coll\<close>, where \<open>coll a b\<close> says that \<open>a\<close> sorts before or with \<open>b\<close>.
\<close>

definition priority_rank :: "patient \<Rightarrow> nat" where
  "priority_rank p = (if priority p = ''Emergency'' then 0 else 1)"

definition order_le :: "(string \<Rightarrow> string \<Rightarrow> bool) \<Rightarrow> patient \<Rightarrow> patient \<Rightarrow> bool" where
  "order_le coll p q =
     (priority_rank p < priority_rank q
      \<or> (priority_rank p = priority_rank q \<and> coll (arrivalTime p) (arrivalTime q)))"

text \<open>Sorting by a comparison, by insertion.\<close>

fun insert_by :: "('a \<Rightarrow> 'a \<Rightarrow> bool) \<Rightarrow> 'a \<Rightarrow> 'a list \<Rightarrow> 'a list" where
  "insert_by le x [] = [x]"
| "insert_by le x (y # ys) = (if le x y then x # y # ys else y # insert_by le x ys)"

definition sort_by :: "('a \<Rightarrow> 'a \<Rightarrow> bool) \<Rightarrow> 'a list \<Rightarrow> 'a list" where
  "sort_by le xs = foldr (insert_by le) xs []"

text \<open>
  \<open>getAllPatients\<close>. The database reads the rows in an order of its own, which decides
  between rows that the ORDER BY clause does not tell apart: the argument \<open>scan\<close> gives
  each row its place in that order.
\<close>

definition getAllPatients ::
  "(string \<Rightarrow> string \<Rightarrow> bool) \<Rightarrow> (patient \<Rightarrow> nat) \<Rightarrow> patients_table \<Rightarrow> patient list" where
  "getAllPatients coll scan s =
     map (\<lambda>r. rowToPatient (select_star r))
       (sort_by (order_le coll) (sort_key scan (filter (\<lambda>p. status p = ''Waiting'') (rows s))))"

text \<open>
  \<open>new Date().toISOString().replace(/\.\d{3}Z$/, "Z")\<close>: the clock's ISO string is an
  argument; a suffix of a dot, three digits and Z is replaced by Z.
\<close>

definition strip_millis :: "string \<Rightarrow> string" where
  "strip_millis stamp =
     (let n = length stamp in
      if 5 \<le> n \<and> (case drop (n - 5) stamp of
                      [a, b, c, d, e] \<Rightarrow> a = CHR ''.'' \<and> is_digit b \<and> is_digit c \<and> is_digit d \<and> e = CHR ''Z''
                    | _ \<Rightarrow> False)
      then take (n - 5) stamp @ ''Z'' else stamp)"

text \<open>
  An error raised by the storage client, with its code: \<open>23505\<close> for a violated
  uniqueness constraint, \<open>22001\<close> for a string longer than its column, \<open>22003\<close> for an
  integer out of the range of its column, \<open>22P02\<close> for text that is not an integer.
\<close>

datatype db_error = PgError string

text \<open>
  \<open>addPatient\<close>. The columns name and "arrivalTime" are VARCHAR(255), priority and status
  are VARCHAR(50), problem is TEXT: a value that is too long is refused before a key is
  drawn. After that a key is drawn, and the insert is refused when the key is in the
  table already.
\<close>

definition addPatient ::
  "patients_table \<Rightarrow> string \<Rightarrow> string \<Rightarrow> string \<Rightarrow> string \<Rightarrow> patients_table \<times> (db_error + patient)" where
  "addPatient s nm pr prio stamp =
     (let arrival = strip_millis stamp;
          row = \<lparr>pid = next_id s, name = nm, problem = pr, priority = prio,
                 arrivalTime = arrival, status = ''Waiting''\<rparr>
      in if 255 < length nm \<or> 50 < length prio \<or> 255 < length arrival
         then (s, Inl (PgError ''22001''))
         else if next_id s \<in> set (map pid (rows s))
         then (s\<lparr>next_id := next_id s + 1\<rparr>, Inl (PgError ''23505''))
         else (\<lparr>rows = rows s @ [row], next_id = next_id s + 1\<rparr>, Inr (rowToPatient (select_star row))))"

text \<open>
  The id column is a 32-bit integer. The storage client sends a number as its text
  (\<open>String(n)\<close>, in exponent form from \<open>10 ^ 21\<close> on), and the database reads the text as
  an integer of the column's type or refuses it.
\<close>

definition int4 :: "int \<Rightarrow> bool" where
  "int4 n = (- 2147483648 \<le> n \<and> n \<le> 2147483647)"

definition int4_param :: "jsnumber \<Rightarrow> db_error + int" where
  "int4_param x =
     (case x of
        Number n \<Rightarrow>
          (if int4 n then Inr n
           else if \<bar>n\<bar> < 10 ^ 21 then Inl (PgError ''22003'')
           else Inl (PgError ''22P02''))
      | _ \<Rightarrow> Inl (PgError ''22P02''))"

text \<open>\<open>UPDATE patients SET status='Visited' WHERE id = $1\<close>, on the rows of the table.\<close>

definition visit_rows :: "int \<Rightarrow> patient list \<Rightarrow> patient list" where
  "visit_rows i xs = map (\<lambda>p. if pid p = i then p\<lparr>status := ''Visited''\<rparr> else p) xs"

text \<open>
  \<open>markVisited\<close> returns the pair \<open>[patient | null, error | null]\<close> of the source, or
  throws the error of the storage client when the first query is refused; next to it is
  the table after the call. The first selected row decides; the update returns its rows
  and the first of them is converted.
\<close>

definition markVisited ::
  "patients_table \<Rightarrow> jsnumber \<Rightarrow> patients_table \<times> (db_error + patient option \<times> string option)" where
  "markVisited s patient_id =
     (case int4_param patient_id of
        Inl e \<Rightarrow> (s, Inl e)
      | Inr i \<Rightarrow>
          (case filter (\<lambda>p. pid p = i) (rows s) of
             [] \<Rightarrow> (s, Inr (None, Some ''not_found''))
           | row # _ \<Rightarrow>
               if status row = ''Visited'' then (s, Inr (None, Some ''already_visited''))
               else
                 (let rows' = visit_rows i (rows s)
                  in case filter (\<lambda>p. pid p = i) rows' of
                       u # _ \<Rightarrow> (s\<lparr>rows := rows'\<rparr>, Inr (Some (rowToPatient (select_star u)), None))
                     | [] \<Rightarrow> (s\<lparr>rows := rows'\<rparr>, Inr (None, None)))))"

record stats =
  totalWaiting :: nat
  totalEmergency :: nat
  totalVisited :: nat

definition getStats :: "patients_table \<Rightarrow> stats" where
  "getStats s =
     \<lparr>totalWaiting = length (filter (\<lambda>p. status p = ''Waiting'') (rows s)),
      totalEmergency = length (filter (\<lambda>p. status p = ''Waiting'' \<and> priority p = ''Emergency'') (rows s)),
      totalVisited = length (filter (\<lambda>p. status p = ''Visited'') (rows s))\<rparr>"

text \<open>The operations of the queue as requests, and the table after a sequence of them.\<close>

datatype queue_op =
    Enqueue string string string string
  | ListWaiting
  | MarkVisited jsnumber
  | Stats

fun apply_queue_op :: "patients_table \<Rightarrow> queue_op \<Rightarrow> patients_table" where
  "apply_queue_op s (Enqueue nm pr prio stamp) = fst (addPatient s nm pr prio stamp)"
| "apply_queue_op s ListWaiting = s"
| "apply_queue_op s (MarkVisited x) = fst (markVisited s x)"
| "apply_queue_op s Stats = s"

definition run_queue_ops :: "patients_table \<Rightarrow> queue_op list \<Rightarrow> patients_table" where
  "run_queue_ops s ops = foldl apply_queue_op s ops"

text \<open>
  What is asked of a collation: any two strings are comparable, and the comparison is
  transitive.
\<close>

definition collation :: "(string \<Rightarrow> string \<Rightarrow> bool) \<Rightarrow> bool" where
  "collation coll = ((\<forall>a b. coll a b \<or> coll b a) \<and> (\<forall>a b c. coll a b \<and> coll b c \<longrightarrow> coll a c))"

text \<open>
  The order that the listing is claimed to respect, between an earlier and a later entry;
  \<open>le\<close> compares the arrival times.
\<close>

definition queue_before :: "(string \<Rightarrow> string \<Rightarrow> bool) \<Rightarrow> patient \<Rightarrow> patient \<Rightarrow> bool" where
  "queue_before le p q =
     ((priority q \<noteq> ''Emergency'' \<or> priority p = ''Emergency'') \<and>
      (priority p \<noteq> priority q \<or> le (arrivalTime p) (arrivalTime q)))"

text \<open>
  The stamps that \<open>addPatient\<close> writes have the form \<open>YYYY-MM-DDTHH:MM:SSZ\<close>. The instant
  of a stamp in UTC with a year of four digits and whole seconds, written with or without
  the separators, is given by its fourteen digits, and the order of the digit strings is
  the order of the instants.
\<close>

definition canonical_stamp :: "string \<Rightarrow> bool" where
  "canonical_stamp t =
     list_all2 (\<lambda>p c. if is_digit p then is_digit c else c = p) ''0000-00-00T00:00:00Z'' t"

definition stamp_instant :: "string \<Rightarrow> string" where
  "stamp_instant t = filter is_digit t"

definition instant_le :: "string \<Rightarrow> string \<Rightarrow> bool" where
  "instant_le a b = (stamp_instant a \<le> stamp_instant b)"

text \<open>
  The patient with id \<open>i\<close> is in the table and every row carrying that id has status
  \<open>Visited\<close>.
\<close>

definition visited_in :: "int \<Rightarrow> patient list \<Rightarrow> bool" where
  "visited_in i xs = ((\<exists>p\<in>set xs. pid p = i) \<and> (\<forall>q\<in>set xs. pid q = i \<longrightarrow> status q = ''Visited''))"

section \<open>Tokens and the request (auth.ts)\<close>

text \<open>
  The configuration read from the environment when the module is loaded; loading fails
  when one of the three is missing.
\<close>

record config =
  JWT_SECRET :: string
  JWT_ALGORITHM :: string
  JWT_COOKIE_NAME :: string

definition ACCESS_TOKEN_EXPIRE_MINUTES :: int where
  "ACCESS_TOKEN_EXPIRE_MINUTES = 60 * 24"

text \<open>A payload is an object: its keys and their values.\<close>

type_synonym JWTPayload = "string \<rightharpoonup> jsval"

text \<open>Reading a property: a key that is absent reads as \<open>undefined\<close>.\<close>

definition get_prop :: "JWTPayload \<Rightarrow> string \<Rightarrow> jsval" where
  "get_prop obj k = (case obj k of None \<Rightarrow> Undefined | Some v \<Rightarrow> v)"

record CurrentUser =
  user_id :: jsnumber
  email :: jsval
  role :: jsval

text \<open>
  Of the request, the Authorization header and the cookies object (absent when no cookie
  parser ran).
\<close>

record request =
  authorization :: "string option"
  cookies :: "(string \<rightharpoonup> string) option"

definition invalid_credentials :: error where
  "invalid_credentials = Error ''Invalid authentication credentials''"

text \<open>What the bearer branch of \<open>extractToken\<close> makes of the second piece of the header.\<close>

definition normalize_bearer :: "string \<Rightarrow> string" where
  "normalize_bearer piece = js_trim (strip_quotes (js_trim piece))"

definition usable_bearer :: "string \<Rightarrow> bool" where
  "usable_bearer t = (t \<noteq> [] \<and> toLowerCase t \<noteq> ''null'' \<and> toLowerCase t \<noteq> ''undefined'')"

definition cookie_token :: "config \<Rightarrow> request \<Rightarrow> error + string" where
  "cookie_token cfg req =
     (case (case cookies req of None \<Rightarrow> None | Some cs \<Rightarrow> cs (JWT_COOKIE_NAME cfg)) of
        None \<Rightarrow> Inl invalid_credentials
      | Some t \<Rightarrow> (if t \<noteq> [] then Inr t else Inl invalid_credentials))"

definition extractToken :: "config \<Rightarrow> request \<Rightarrow> error + string" where
  "extractToken cfg req =
     (case authorization req of
        None \<Rightarrow> cookie_token cfg req
      | Some authHeader \<Rightarrow>
          if authHeader \<noteq> [] \<and> startsWith (toLowerCase authHeader) ''bearer ''
          then (case take 2 (split_on CHR '' '' authHeader) of
                  [_, piece] \<Rightarrow>
                    (let bearerToken = normalize_bearer piece
                     in if usable_bearer bearerToken then Inr bearerToken else cookie_token cfg req)
                | _ \<Rightarrow> Inl (TypeError ''Cannot read properties of undefined''))
          else cookie_token cfg req)"

text \<open>
  auth.ts signs and verifies tokens with the jsonwebtoken package, which is not part of
  the repository. A signed token has an algorithm, a payload and a signature; the
  signature is a function \<open>mac\<close> of algorithm, secret and payload. The compact text form
  of a token is left open: \<open>serialize\<close> writes it and \<open>parse\<close> reads it.
\<close>

record jws =
  j_alg :: string
  j_payload :: JWTPayload
  j_sig :: string

record jwt_codec =
  serialize :: "jws \<Rightarrow> string"
  parse :: "string \<Rightarrow> jws option"
  mac :: "string \<Rightarrow> string \<Rightarrow> JWTPayload \<Rightarrow> string"

text \<open>
  Modelled from the spec: \<open>jwt.sign\<close> of the jsonwebtoken package. It produces a signed
  token embedding the claims plus issuedAt and an expiresAt exactly the lifetime after
  issuance; a payload that already carries an expiry is refused.
\<close>

definition jwt_sign :: "jwt_codec \<Rightarrow> JWTPayload \<Rightarrow> string \<Rightarrow> string \<Rightarrow> int \<Rightarrow> int \<Rightarrow> error + string" where
  "jwt_sign codec payload secret alg expiresIn now =
     (if payload ''exp'' \<noteq> None then Inl (Error ''the payload already has an exp property'')
      else
        (let body = payload(''iat'' \<mapsto> Num now, ''exp'' \<mapsto> Num (now + expiresIn))
         in Inr (serialize codec \<lparr>j_alg = alg, j_payload = body, j_sig = mac codec alg secret body\<rparr>)))"

text \<open>
  Modelled from the spec: \<open>jwt.verify\<close> of the jsonwebtoken package. A token is valid only
  if its signature verifies under the configured secret and algorithm and its expiry has
  not elapsed; verification fails if the signature is invalid, the algorithm does not
  match, or the token has expired.
\<close>

definition jwt_verify :: "jwt_codec \<Rightarrow> string \<Rightarrow> string \<Rightarrow> string list \<Rightarrow> int \<Rightarrow> error + JWTPayload" where
  "jwt_verify codec token secret algorithms now =
     (case parse codec token of
        None \<Rightarrow> Inl (Error ''jwt malformed'')
      | Some j \<Rightarrow>
          if j_alg j \<notin> set algorithms then Inl (Error ''invalid algorithm'')
          else if j_sig j \<noteq> mac codec (j_alg j) secret (j_payload j) then Inl (Error ''invalid signature'')
          else (case j_payload j ''exp'' of
                  Some (Num e) \<Rightarrow> (if e \<le> now then Inl (Error ''jwt expired'') else Inr (j_payload j))
                | _ \<Rightarrow> Inr (j_payload j)))"

text \<open>
  \<open>createAccessToken\<close>: the clock (in seconds) is an argument. \<open>expiresDelta\<close> is optional
  and counts only when it is truthy, that is, not zero.
\<close>

definition createAccessToken ::
  "jwt_codec \<Rightarrow> config \<Rightarrow> JWTPayload \<Rightarrow> int option \<Rightarrow> int \<Rightarrow> error + string" where
  "createAccessToken codec cfg data expiresDelta now =
     (let toEncode = (case data ''sub'' of
                        None \<Rightarrow> data
                      | Some v \<Rightarrow> (if v \<noteq> Undefined then data(''sub'' \<mapsto> Str (js_String v)) else data));
          expiresIn = (case expiresDelta of
                         None \<Rightarrow> ACCESS_TOKEN_EXPIRE_MINUTES * 60
                       | Some d \<Rightarrow> (if d \<noteq> 0 then d else ACCESS_TOKEN_EXPIRE_MINUTES * 60))
      in jwt_sign codec toEncode (JWT_SECRET cfg) (JWT_ALGORITHM cfg) expiresIn now)"

definition decodeToken :: "jwt_codec \<Rightarrow> config \<Rightarrow> string \<Rightarrow> int \<Rightarrow> error + JWTPayload" where
  "decodeToken codec cfg token now =
     (case jwt_verify codec token (JWT_SECRET cfg) [JWT_ALGORITHM cfg] now of
        Inl _ \<Rightarrow> Inl invalid_credentials
      | Inr payload \<Rightarrow> Inr payload)"

text \<open>The coercion of the subject that \<open>getCurrentUser\<close> and \<open>authMiddleware\<close> share.\<close>

definition coerce_user_id :: "jsval \<Rightarrow> jsnumber" where
  "coerce_user_id userIdRaw =
     (case userIdRaw of Num n \<Rightarrow> Number n | _ \<Rightarrow> parseInt (js_String userIdRaw))"

text \<open>
  \<open>getCurrentUser\<close> called with the request alone: it returns the user or throws. (With a
  response it also writes the 401 answer before throwing.)
\<close>

definition getCurrentUser :: "jwt_codec \<Rightarrow> config \<Rightarrow> request \<Rightarrow> int \<Rightarrow> error + CurrentUser" where
  "getCurrentUser codec cfg req now =
     (case extractToken cfg req of
        Inl e \<Rightarrow> Inl e
      | Inr token \<Rightarrow>
          (case decodeToken codec cfg token now of
             Inl e \<Rightarrow> Inl e
           | Inr payload \<Rightarrow>
               (let userIdRaw = get_prop payload ''sub''
                in if userIdRaw = Undefined \<or> userIdRaw = Null then Inl invalid_credentials
                   else Inr \<lparr>user_id = coerce_user_id userIdRaw,
                             email = get_prop payload ''email'',
                             role = get_prop payload ''role''\<rparr>)))"

text \<open>
  The middleware either hands the request on with \<open>currentUser\<close> attached, or answers
  with a status and a message.
\<close>

datatype middleware_outcome = Next CurrentUser | Respond nat string

definition error_message :: "error \<Rightarrow> string" where
  "error_message e = (case e of Error m \<Rightarrow> m | TypeError m \<Rightarrow> m)"

definition authMiddleware :: "jwt_codec \<Rightarrow> config \<Rightarrow> request \<Rightarrow> int \<Rightarrow> middleware_outcome" where
  "authMiddleware codec cfg req now =
     (case extractToken cfg req of
        Inl e \<Rightarrow> Respond 401 (error_message e)
      | Inr token \<Rightarrow>
          (case decodeToken codec cfg token now of
             Inl e \<Rightarrow> Respond 401 (error_message e)
           | Inr payload \<Rightarrow>
               (let userIdRaw = get_prop payload ''sub''
                in if userIdRaw = Undefined \<or> userIdRaw = Null
                   then Respond 401 ''Invalid authentication credentials''
                   else Next \<lparr>user_id = coerce_user_id userIdRaw,
                              email = get_prop payload ''email'',
                              role = get_prop payload ''role''\<rparr>)))"

text \<open>A string that neither starts nor ends with white space.\<close>

definition outer_clean :: "string \<Rightarrow> bool" where
  "outer_clean t = (t = [] \<or> (\<not> is_space (hd t) \<and> \<not> is_space (last t)))"

text \<open>
  A bearer token in the header that needs no cleaning: not empty, free of white space and
  of double quotes, and not the word null or undefined.
\<close>

definition wellformed_bearer :: "string \<Rightarrow> bool" where
  "wellformed_bearer tok = (tok \<noteq> [] \<and> (\<forall>c\<in>set tok. \<not> is_space c \<and> c \<noteq> CHR 0x22) \<and> usable_bearer tok)"

text \<open>The text \<open>tok\<close> is read back as the signed token it was written from.\<close>

definition reads_back :: "jwt_codec \<Rightarrow> string \<Rightarrow> bool" where
  "reads_back codec tok = (\<forall>j. serialize codec j = tok \<longrightarrow> parse codec tok = Some j)"

text \<open>A codec that knows the text of one signed token, for the examples.\<close>

definition single_token_codec :: "jws \<Rightarrow> string \<Rightarrow> jwt_codec" where
  "single_token_codec j0 text =
     \<lparr>serialize = (\<lambda>j. if j = j0 then text else []),
      parse = (\<lambda>t. if t = text then Some j0 else None),
      mac = (\<lambda>alg secret payload. secret @ alg @ js_String (get_prop payload ''sub''))\<rparr>"

definition example_config :: config where
  "example_config = \<lparr>JWT_SECRET = ''secret'', JWT_ALGORITHM = ''HS256'', JWT_COOKIE_NAME = ''access_token''\<rparr>"

section \<open>Credentials (auth.ts)\<close>


definition verifyPassword :: "(string \<Rightarrow> string \<Rightarrow> error + bool) \<Rightarrow> string \<Rightarrow> string \<Rightarrow> error + bool" where
  "verifyPassword bcrypt_compare plainPassword hashedPassword = bcrypt_compare plainPassword hashedPassword"

section \<open>User directory (db.ts)\<close>









section \<open>Example values\<close>

definition example_claims :: JWTPayload where
  "example_claims = [''sub'' \<mapsto> Num 7, ''email'' \<mapsto> Str ''a@b.c'', ''role'' \<mapsto> Str ''user'']"

definition example_body :: JWTPayload where
  "example_body = [''sub'' \<mapsto> Num 7, ''email'' \<mapsto> Str ''a@b.c'', ''role'' \<mapsto> Str ''user'']
     (''sub'' \<mapsto> Str ''7'', ''iat'' \<mapsto> Num 1000, ''exp'' \<mapsto> Num 87400)"

definition example_codec :: jwt_codec where
  "example_codec =
     single_token_codec \<lparr>j_alg = ''HS256'', j_payload = example_body, j_sig = ''secretHS2567''\<rparr> ''h.p.s''"

definition nan_body :: JWTPayload where
  "nan_body = [''sub'' \<mapsto> Str ''abc'', ''email'' \<mapsto> Str ''a@b.c'']"

definition nan_codec :: jwt_codec where
  "nan_codec =
     single_token_codec \<lparr>j_alg = ''HS256'', j_payload = nan_body, j_sig = ''secretHS256abc''\<rparr> ''h.p.s''"

definition bearer_request :: request where
  "bearer_request = \<lparr>authorization = Some ''Bearer h.p.s'', cookies = None\<rparr>"

definition quoted_token :: string where
  "quoted_token = [CHR 0x09, CHR 0x22] @ ''a.b'' @ [CHR 0x22, CHR 0x09]"

definition partial_body :: JWTPayload where
  "partial_body = [''sub'' \<mapsto> Str ''12abc'']"

definition partial_codec :: jwt_codec where
  "partial_codec =
     single_token_codec \<lparr>j_alg = ''HS256'', j_payload = partial_body, j_sig = ''secretHS25612abc''\<rparr> ''h.p.s''"

definition example_queue :: patients_table where
  "example_queue = run_queue_ops \<lparr>rows = [], next_id = 1\<rparr>
     [Enqueue ''Al'' ''Fever'' ''Normal'' ''2024-01-01T10:00:00.123Z'',
      Enqueue ''Bo'' ''Chest pain'' ''Emergency'' ''2024-01-01T10:00:05.456Z'']"

definition mixed_table :: patients_table where
  "mixed_table =
     \<lparr>rows = [\<lparr>pid = 1, name = ''Al'', problem = ''Fever'', priority = ''Normal'',
                arrivalTime = ''20240101T100000Z'', status = ''Waiting''\<rparr>,
              \<lparr>pid = 2, name = ''Bo'', problem = ''Cough'', priority = ''Normal'',
                arrivalTime = ''2024-01-01T11:00:00Z'', status = ''Waiting''\<rparr>],
      next_id = 3\<rparr>"

definition visited_patient :: patient where
  "visited_patient = \<lparr>pid = 1, name = ''Al'', problem = ''Fever'', priority = ''Normal'',
     arrivalTime = ''2024-01-01T10:00:00Z'', status = ''Visited''\<rparr>"

definition visited_table :: patients_table where
  "visited_table = \<lparr>rows = [visited_patient], next_id = 1\<rparr>"

definition waiting_table :: patients_table where
  "waiting_table = \<lparr>rows = [visited_patient\<lparr>status := ''Waiting''\<rparr>], next_id = 1\<rparr>"

definition later_ops :: "queue_op list" where
  "later_ops = [MarkVisited (Number 1), Enqueue ''Bo'' ''Chest pain'' ''Emergency'' ''2024-01-01T10:00:05.456Z'',
     Enqueue ''Cy'' ''Cough'' ''Normal'' ''2024-01-01T10:00:06.456Z'', ListWaiting, Stats]"



section \<open>Properties of the patient queue\<close>

lemma rowToPatient_select_star: "rowToPatient (select_star p) = p"
  by (simp add: rowToPatient_def select_star_def js_or_def)

lemma mset_insert_by: "mset (insert_by le x xs) = add_mset x (mset xs)"
  by (induction xs) simp_all

lemma mset_sort_by: "mset (sort_by le xs) = mset xs"
  by (induction xs) (simp_all add: sort_by_def mset_insert_by)

lemma set_insert_by: "set (insert_by le x xs) = insert x (set xs)"
  by (induction xs) auto

lemma sorted_insert_by:
  assumes tot: "\<And>a b. le a b \<or> le b a" and trans: "\<And>a b c. le a b \<Longrightarrow> le b c \<Longrightarrow> le a c"
  shows "sorted_wrt le xs \<Longrightarrow> sorted_wrt le (insert_by le x xs)"
proof (induction xs)
  case Nil
  then show ?case by simp
next
  case (Cons y ys)
  show ?case
  proof (cases "le x y")
    case True
    with Cons.prems trans show ?thesis by auto
  next
    case False
    with tot have "le y x" by blast
    with Cons False show ?thesis by (auto simp: set_insert_by)
  qed
qed

lemma sorted_sort_by:
  assumes tot: "\<And>a b. le a b \<or> le b a" and trans: "\<And>a b c. le a b \<Longrightarrow> le b c \<Longrightarrow> le a c"
  shows "sorted_wrt le (sort_by le xs)"
proof (induction xs)
  case Nil
  show ?case by (simp add: sort_by_def)
next
  case (Cons x xs)
  have "sort_by le (x # xs) = insert_by le x (sort_by le xs)" by (simp add: sort_by_def)
  with Cons sorted_insert_by [of le, OF tot trans] show ?case by simp
qed

lemma order_le_total: "collation coll \<Longrightarrow> order_le coll p q \<or> order_le coll q p"
  unfolding collation_def order_le_def by (metis linorder_neqE_nat)

lemma order_le_trans:
  "collation coll \<Longrightarrow> order_le coll p q \<Longrightarrow> order_le coll q r \<Longrightarrow> order_le coll p r"
  unfolding collation_def order_le_def by (metis less_trans)

lemma order_le_queue_before: "order_le coll p q \<Longrightarrow> queue_before coll p q"
  by (auto simp: order_le_def queue_before_def priority_rank_def split: if_splits)

lemma getAllPatients_sorted_filter:
  "getAllPatients coll scan s =
     sort_by (order_le coll) (sort_key scan (filter (\<lambda>p. status p = ''Waiting'') (rows s)))"
  by (simp add: getAllPatients_def rowToPatient_select_star)

lemma mset_getAllPatients:
  "mset (getAllPatients coll scan s) = filter_mset (\<lambda>p. status p = ''Waiting'') (mset (rows s))"
  by (simp add: getAllPatients_sorted_filter mset_sort_by)

lemma set_getAllPatients: "set (getAllPatients coll scan s) = {p \<in> set (rows s). status p = ''Waiting''}"
  using mset_getAllPatients [of coll scan s, THEN arg_cong, of set_mset] by simp

lemma sorted_getAllPatients:
  assumes "collation coll"
  shows "sorted_wrt (queue_before coll) (getAllPatients coll scan s)"
proof -
  have "sorted_wrt (order_le coll) (getAllPatients coll scan s)"
    unfolding getAllPatients_sorted_filter
    by (rule sorted_sort_by) (use assms order_le_total order_le_trans in blast)+
  then show ?thesis
    by (rule sorted_wrt_mono_rel [rotated]) (rule order_le_queue_before)
qed

lemma same_shape_instant:
  assumes "list_all2 (\<lambda>x y. (is_digit x \<and> is_digit y) \<or> (\<not> is_digit x \<and> x = y)) a b" "a \<le> b"
  shows "filter is_digit a \<le> filter is_digit b"
  using assms
proof (induction a b rule: list_all2_induct)
  case Nil
  then show ?case by simp
next
  case (Cons x xs y ys)
  from Cons.prems have c: "x < y \<or> (x = y \<and> xs \<le> ys)"
    by simp
  show ?case
  proof (cases "is_digit x")
    case True
    with Cons.hyps have "is_digit y" by auto
    with True c Cons.IH show ?thesis by auto
  next
    case False
    with Cons.hyps have "x = y" by auto
    with False c Cons.IH show ?thesis by auto
  qed
qed

lemma shape_of_pattern:
  "list_all2 (\<lambda>p c. if is_digit p then is_digit c else c = p) pat a \<Longrightarrow>
   list_all2 (\<lambda>p c. if is_digit p then is_digit c else c = p) pat b \<Longrightarrow>
   list_all2 (\<lambda>x y. (is_digit x \<and> is_digit y) \<or> (\<not> is_digit x \<and> x = y)) a b"
proof (induction pat arbitrary: a b)
  case Nil
  then show ?case by simp
next
  case (Cons p pat)
  from Cons.prems obtain x xs y ys where a: "a = x # xs" and b: "b = y # ys"
    by (auto simp: list_all2_Cons1)
  with Cons.prems have t: "list_all2 (\<lambda>p c. if is_digit p then is_digit c else c = p) pat xs"
    "list_all2 (\<lambda>p c. if is_digit p then is_digit c else c = p) pat ys"
    and h: "if is_digit p then is_digit x else x = p" "if is_digit p then is_digit y else y = p"
    by simp_all
  from h have "(is_digit x \<and> is_digit y) \<or> (\<not> is_digit x \<and> x = y)" by (auto split: if_splits)
  with Cons.IH [OF t] show ?case by (simp add: a b)
qed

lemma canonical_same_shape:
  assumes "canonical_stamp a" "canonical_stamp b"
  shows "list_all2 (\<lambda>x y. (is_digit x \<and> is_digit y) \<or> (\<not> is_digit x \<and> x = y)) a b"
  using assms unfolding canonical_stamp_def by (rule shape_of_pattern)

lemma canonical_le_instant:
  "canonical_stamp a \<Longrightarrow> canonical_stamp b \<Longrightarrow> a \<le> b \<Longrightarrow> instant_le a b"
  unfolding instant_le_def stamp_instant_def
  by (rule same_shape_instant [OF canonical_same_shape])

lemma sorted_by_instant:
  assumes "collation coll"
    and agree: "\<forall>a b. canonical_stamp a \<and> canonical_stamp b \<and> coll a b \<longrightarrow> a \<le> b"
    and canon: "\<forall>p\<in>set (rows s). status p = ''Waiting'' \<longrightarrow> canonical_stamp (arrivalTime p)"
  shows "sorted_wrt (queue_before instant_le) (getAllPatients coll scan s)"
proof (rule sorted_wrt_mono_rel [OF _ sorted_getAllPatients [OF assms(1)]])
  fix p q
  assume p: "p \<in> set (getAllPatients coll scan s)" and q: "q \<in> set (getAllPatients coll scan s)"
    and b: "queue_before coll p q"
  from p q canon have cp: "canonical_stamp (arrivalTime p)" and cq: "canonical_stamp (arrivalTime q)"
    by (simp_all add: set_getAllPatients)
  show "queue_before instant_le p q"
    using b agree cp cq canonical_le_instant unfolding queue_before_def by blast
qed

text \<open>
  Claim C1, amended. Whatever the table holds and whatever calls are made on it (enqueue
  calls among them), under any collation the listing holds exactly the rows whose status
  is \<open>Waiting\<close>, each once; in it no entry that is not an Emergency comes before an
  Emergency, and two entries of the same priority appear in non-decreasing order of their
  arrival strings in the collation. When every waiting row carries a stamp of the form
  that \<open>addPatient\<close> writes and the collation orders such stamps as their code units
  do, this is the non-decreasing order of the instants.
\<close>

theorem listWaiting_order:
  assumes "collation coll"
  shows "mset (getAllPatients coll scan (run_queue_ops s0 ops)) =
           filter_mset (\<lambda>p. status p = ''Waiting'') (mset (rows (run_queue_ops s0 ops)))
       \<and> sorted_wrt (queue_before coll) (getAllPatients coll scan (run_queue_ops s0 ops))
       \<and> ((\<forall>a b. canonical_stamp a \<and> canonical_stamp b \<and> coll a b \<longrightarrow> a \<le> b)
           \<and> (\<forall>p\<in>set (rows (run_queue_ops s0 ops)). status p = ''Waiting'' \<longrightarrow> canonical_stamp (arrivalTime p))
          \<longrightarrow> sorted_wrt (queue_before instant_le) (getAllPatients coll scan (run_queue_ops s0 ops)))"
  using mset_getAllPatients sorted_getAllPatients [OF assms] sorted_by_instant [OF assms]
  by blast

lemma collation_code_units: "collation (\<le>)"
  unfolding collation_def by (meson linear order_trans)

lemma example_queue_rows:
  "rows example_queue =
     [\<lparr>pid = 1, name = ''Al'', problem = ''Fever'', priority = ''Normal'',
        arrivalTime = ''2024-01-01T10:00:00Z'', status = ''Waiting''\<rparr>,
      \<lparr>pid = 2, name = ''Bo'', problem = ''Chest pain'', priority = ''Emergency'',
        arrivalTime = ''2024-01-01T10:00:05Z'', status = ''Waiting''\<rparr>]"
  "canonical_stamp ''2024-01-01T10:00:00Z''" "canonical_stamp ''2024-01-01T10:00:05Z''"
  "map name (getAllPatients (\<le>) (\<lambda>p. nat (pid p)) example_queue) = [''Bo'', ''Al'']"
  unfolding example_queue_def by code_simp+

theorem listWaiting_order_witness:
  "collation (\<le>)
   \<and> map name (getAllPatients (\<le>) (\<lambda>p. nat (pid p)) example_queue) = [''Bo'', ''Al'']
   \<and> sorted_wrt (queue_before (\<le>)) (getAllPatients (\<le>) (\<lambda>p. nat (pid p)) example_queue)
   \<and> sorted_wrt (queue_before instant_le) (getAllPatients (\<le>) (\<lambda>p. nat (pid p)) example_queue)"
  using listWaiting_order [OF collation_code_units, of "\<lambda>p. nat (pid p)" "\<lparr>rows = [], next_id = 1\<rparr>"
      "[Enqueue ''Al'' ''Fever'' ''Normal'' ''2024-01-01T10:00:00.123Z'',
        Enqueue ''Bo'' ''Chest pain'' ''Emergency'' ''2024-01-01T10:00:05.456Z'']"]
    collation_code_units example_queue_rows
  by (simp add: example_queue_def [symmetric])

text \<open>
  Claim C1 as stated fails on a stored table whose stamps are not of one form: the row
  of eleven o'clock is listed before the row of ten o'clock of the same day, both of the
  same priority, because the listing is ordered by the strings.
\<close>

theorem listWaiting_time_counterexample:
  "map arrivalTime (getAllPatients (\<le>) (\<lambda>p. nat (pid p)) mixed_table)
     = [''2024-01-01T11:00:00Z'', ''20240101T100000Z'']
   \<and> map priority (getAllPatients (\<le>) (\<lambda>p. nat (pid p)) mixed_table) = [''Normal'', ''Normal'']
   \<and> stamp_instant ''2024-01-01T11:00:00Z'' = ''20240101110000''
   \<and> stamp_instant ''20240101T100000Z'' = ''20240101100000''
   \<and> \<not> instant_le ''2024-01-01T11:00:00Z'' ''20240101T100000Z''"
  unfolding mixed_table_def instant_le_def by code_simp

lemma filter_pid_empty: "filter (\<lambda>p. pid p = i) xs = [] \<longleftrightarrow> (\<forall>p\<in>set xs. pid p \<noteq> i)"
  by (simp add: filter_empty_conv)

lemma filter_pid_distinct:
  "distinct (map pid xs) \<Longrightarrow> p \<in> set xs \<Longrightarrow> filter (\<lambda>q. pid q = pid p) xs = [p]"
proof (induction xs)
  case Nil
  then show ?case by simp
next
  case (Cons x xs)
  show ?case
  proof (cases "x = p")
    case True
    with Cons.prems have "pid p \<notin> pid ` set xs" by simp
    then have "\<forall>q\<in>set xs. pid q \<noteq> pid p" by (auto simp: image_iff)
    then have "filter (\<lambda>q. pid q = pid p) xs = []" by (simp add: filter_empty_conv)
    with True show ?thesis by simp
  next
    case False
    with Cons.prems have px: "p \<in> set xs" by simp
    with Cons.prems have "pid x \<noteq> pid p" by (auto simp: image_iff)
    note px this
    with Cons show ?thesis by simp
  qed
qed

lemma map_pid_visit_rows: "map pid (visit_rows i xs) = map pid xs"
  by (induction xs) (simp_all add: visit_rows_def)

lemma int4_param_Number: "int4 i \<Longrightarrow> int4_param (Number i) = Inr i"
  by (simp add: int4_param_def)

lemma markVisited_not_found:
  "int4 i \<Longrightarrow> \<forall>p\<in>set (rows s). pid p \<noteq> i \<Longrightarrow>
     markVisited s (Number i) = (s, Inr (None, Some ''not_found''))"
  using filter_pid_empty [of i "rows s"] by (simp add: markVisited_def int4_param_Number)

lemma markVisited_already:
  assumes "distinct (map pid (rows s))" "p \<in> set (rows s)" "status p = ''Visited''" "int4 (pid p)"
  shows "markVisited s (Number (pid p)) = (s, Inr (None, Some ''already_visited''))"
  using filter_pid_distinct [OF assms(1,2)] assms(3,4) by (simp add: markVisited_def int4_param_Number)

lemma markVisited_ok:
  assumes "distinct (map pid (rows s))" "p \<in> set (rows s)" "status p \<noteq> ''Visited''" "int4 (pid p)"
  shows "markVisited s (Number (pid p)) =
           (s\<lparr>rows := visit_rows (pid p) (rows s)\<rparr>, Inr (Some (p\<lparr>status := ''Visited''\<rparr>), None))"
proof -
  let ?u = "p\<lparr>status := ''Visited''\<rparr>"
  have d: "distinct (map pid (visit_rows (pid p) (rows s)))"
    using assms(1) by (simp add: map_pid_visit_rows)
  have m: "?u \<in> set (visit_rows (pid p) (rows s))"
    using assms(2) by (force simp: visit_rows_def)
  have "filter (\<lambda>q. pid q = pid ?u) (visit_rows (pid p) (rows s)) = [?u]"
    by (rule filter_pid_distinct [OF d m])
  then have f: "filter (\<lambda>q. pid q = pid p) (visit_rows (pid p) (rows s)) = [?u]" by simp
  show ?thesis
    using filter_pid_distinct [OF assms(1,2)] assms(3,4) f
    by (simp add: markVisited_def int4_param_Number rowToPatient_select_star)
qed

lemma pid_unique:
  "distinct (map pid xs) \<Longrightarrow> p \<in> set xs \<Longrightarrow> q \<in> set xs \<Longrightarrow> pid q = pid p \<Longrightarrow> q = p"
  by (meson distinct_map inj_onD)

lemma markVisited_twice:
  assumes "distinct (map pid (rows s))" "p \<in> set (rows s)" "status p \<noteq> ''Visited''" "int4 (pid p)"
  shows "markVisited (fst (markVisited s (Number (pid p)))) (Number (pid p)) =
           (fst (markVisited s (Number (pid p))), Inr (None, Some ''already_visited''))"
proof -
  let ?u = "p\<lparr>status := ''Visited''\<rparr>"
  let ?s' = "s\<lparr>rows := visit_rows (pid p) (rows s)\<rparr>"
  have r1: "fst (markVisited s (Number (pid p))) = ?s'"
    by (simp add: markVisited_ok [OF assms])
  have d': "distinct (map pid (rows ?s'))" using assms(1) by (simp add: map_pid_visit_rows)
  have m': "?u \<in> set (rows ?s')" using assms(2) by (force simp: visit_rows_def)
  have "markVisited ?s' (Number (pid ?u)) = (?s', Inr (None, Some ''already_visited''))"
    by (rule markVisited_already [OF d' m']) (simp_all add: assms(4))
  then show ?thesis by (simp add: r1)
qed

lemma markVisited_not_found_iff:
  assumes "distinct (map pid (rows s))" "int4 i"
  shows "snd (markVisited s (Number i)) = Inr (None, Some ''not_found'') \<longleftrightarrow> (\<forall>p\<in>set (rows s). pid p \<noteq> i)"
proof
  assume nf: "snd (markVisited s (Number i)) = Inr (None, Some ''not_found'')"
  show "\<forall>p\<in>set (rows s). pid p \<noteq> i"
  proof (rule ccontr)
    assume "\<not> (\<forall>p\<in>set (rows s). pid p \<noteq> i)"
    then obtain p where p: "p \<in> set (rows s)" "pid p = i" by blast
    show False
    proof (cases "status p = ''Visited''")
      case True
      from markVisited_already [OF assms(1) p(1) True] p(2) assms(2) nf show False by simp
    next
      case False
      from markVisited_ok [OF assms(1) p(1) False] p(2) assms(2) nf show False by simp
    qed
  qed
next
  assume "\<forall>p\<in>set (rows s). pid p \<noteq> i"
  from markVisited_not_found [OF assms(2) this]
  show "snd (markVisited s (Number i)) = Inr (None, Some ''not_found'')"
    by simp
qed

lemma markVisited_already_iff:
  assumes "distinct (map pid (rows s))" "int4 i"
  shows "snd (markVisited s (Number i)) = Inr (None, Some ''already_visited'')
           \<longleftrightarrow> (\<exists>p\<in>set (rows s). pid p = i \<and> status p = ''Visited'')"
proof
  assume av: "snd (markVisited s (Number i)) = Inr (None, Some ''already_visited'')"
  show "\<exists>p\<in>set (rows s). pid p = i \<and> status p = ''Visited''"
  proof (cases "\<forall>p\<in>set (rows s). pid p \<noteq> i")
    case True
    from markVisited_not_found [OF assms(2) True] av show ?thesis by simp
  next
    case False
    then obtain p where p: "p \<in> set (rows s)" "pid p = i" by blast
    have "status p = ''Visited''"
    proof (rule ccontr)
      assume "status p \<noteq> ''Visited''"
      from markVisited_ok [OF assms(1) p(1) this] p(2) assms(2) av show False by simp
    qed
    with p show ?thesis by blast
  qed
next
  assume "\<exists>p\<in>set (rows s). pid p = i \<and> status p = ''Visited''"
  then obtain p where p: "p \<in> set (rows s)" "pid p = i" "status p = ''Visited''" by blast
  from markVisited_already [OF assms(1) p(1,3)] p(2) assms(2)
  show "snd (markVisited s (Number i)) = Inr (None, Some ''already_visited'')" by simp
qed

text \<open>
  Claim C2, amended. For an id in the range of the id column, on a table whose ids are
  distinct (the primary key), \<open>markVisited\<close> answers \<open>not_found\<close> exactly when no row
  has the id, \<open>already_visited\<close> exactly when the row with the id has status
  \<open>Visited\<close>, and otherwise returns the row with its status set to \<open>Visited\<close>; a
  second call on the same id then answers \<open>already_visited\<close>.
\<close>

theorem markVisited_outcomes:
  assumes "distinct (map pid (rows s))" "int4 i"
  shows "(snd (markVisited s (Number i)) = Inr (None, Some ''not_found'') \<longleftrightarrow> (\<forall>p\<in>set (rows s). pid p \<noteq> i))
       \<and> (snd (markVisited s (Number i)) = Inr (None, Some ''already_visited'')
            \<longleftrightarrow> (\<exists>p\<in>set (rows s). pid p = i \<and> status p = ''Visited''))
       \<and> (\<forall>p\<in>set (rows s). pid p = i \<and> status p \<noteq> ''Visited'' \<longrightarrow>
            snd (markVisited s (Number i)) = Inr (Some (p\<lparr>status := ''Visited''\<rparr>), None)
            \<and> snd (markVisited (fst (markVisited s (Number i))) (Number i)) = Inr (None, Some ''already_visited''))"
proof (intro conjI ballI impI)
  show "snd (markVisited s (Number i)) = Inr (None, Some ''not_found'') \<longleftrightarrow> (\<forall>p\<in>set (rows s). pid p \<noteq> i)"
    by (rule markVisited_not_found_iff [OF assms])
  show "snd (markVisited s (Number i)) = Inr (None, Some ''already_visited'')
            \<longleftrightarrow> (\<exists>p\<in>set (rows s). pid p = i \<and> status p = ''Visited'')"
    by (rule markVisited_already_iff [OF assms])
next
  fix p assume p: "p \<in> set (rows s)" "pid p = i \<and> status p \<noteq> ''Visited''"
  then have nv: "status p \<noteq> ''Visited''" and i: "pid p = i" by simp_all
  from i assms(2) have r: "int4 (pid p)" by simp
  from markVisited_ok [OF assms(1) p(1) nv r] i
  show "snd (markVisited s (Number i)) = Inr (Some (p\<lparr>status := ''Visited''\<rparr>), None)" by simp
  from markVisited_twice [OF assms(1) p(1) nv r] i
  show "snd (markVisited (fst (markVisited s (Number i))) (Number i)) = Inr (None, Some ''already_visited'')" by simp
qed

theorem markVisited_outcomes_witness:
  "distinct (map pid (rows waiting_table)) \<and> int4 1 \<and> int4 2
   \<and> snd (markVisited waiting_table (Number 1)) = Inr (Some visited_patient, None)
   \<and> snd (markVisited (fst (markVisited waiting_table (Number 1))) (Number 1)) = Inr (None, Some ''already_visited'')
   \<and> snd (markVisited waiting_table (Number 2)) = Inr (None, Some ''not_found'')"
  using markVisited_outcomes [of waiting_table 1] markVisited_outcomes [of waiting_table 2]
  by (simp add: waiting_table_def visited_patient_def int4_def)

text \<open>
  Claim C2 as stated fails for a number that is not an id of the column's type: no row
  has that id, and \<open>markVisited\<close> does not answer \<open>not_found\<close> but throws the error of
  the storage, for an integer out of range as for the NaN that the route makes of a
  path segment without digits.
\<close>

theorem markVisited_range_counterexample:
  "2147483648 \<notin> pid ` set (rows waiting_table)
   \<and> markVisited waiting_table (Number 2147483648) = (waiting_table, Inl (PgError ''22003''))
   \<and> markVisited waiting_table NaN = (waiting_table, Inl (PgError ''22P02''))
   \<and> markVisited waiting_table (parseInt ''abc'') = (waiting_table, Inl (PgError ''22P02''))"
proof -
  have "parse_integer ''abc'' = None" by code_simp
  then have "parseInt ''abc'' = NaN" by (simp add: parseInt_def)
  then show ?thesis
    by (simp add: markVisited_def int4_param_def int4_def waiting_table_def visited_patient_def)
qed

lemma visited_in_not_listed:
  assumes "visited_in i (rows s)" "q \<in> set (getAllPatients coll scan s)"
  shows "pid q \<noteq> i"
proof
  assume "pid q = i"
  moreover from assms(2) have "q \<in> set (rows s)" "status q = ''Waiting''"
    by (simp_all add: set_getAllPatients)
  ultimately have "''Waiting'' = ''Visited''" using assms(1) by (auto simp: visited_in_def)
  then show False by simp
qed

lemma visited_in_visit_rows: "visited_in i xs \<Longrightarrow> visited_in i (visit_rows j xs)"
  by (force simp: visited_in_def visit_rows_def)

lemma visit_rows_visited_in:
  assumes "p \<in> set xs"
  shows "visited_in (pid p) (visit_rows (pid p) xs)"
proof -
  have "p\<lparr>status := ''Visited''\<rparr> \<in> set (visit_rows (pid p) xs)"
    using assms by (force simp: visit_rows_def)
  then have "\<exists>q\<in>set (visit_rows (pid p) xs). pid q = pid p"
    by (rule rev_bexI) simp
  moreover have "\<forall>q\<in>set (visit_rows (pid p) xs). pid q = pid p \<longrightarrow> status q = ''Visited''"
    by (auto simp: visit_rows_def)
  ultimately show ?thesis by (simp add: visited_in_def)
qed

lemma rows_markVisited:
  "rows (fst (markVisited s x)) = rows s \<or> (\<exists>j. rows (fst (markVisited s x)) = visit_rows j (rows s))"
  by (auto simp: markVisited_def Let_def split: list.splits sum.splits)

lemma visited_in_markVisited:
  "visited_in i (rows s) \<Longrightarrow> visited_in i (rows (fst (markVisited s x)))"
  using rows_markVisited [of s x] visited_in_visit_rows [of i "rows s"] by auto

lemma visited_in_addPatient:
  assumes "visited_in i (rows s)"
  shows "visited_in i (rows (fst (addPatient s nm pr prio stamp)))"
proof (cases "next_id s \<in> set (map pid (rows s))")
  case True
  then show ?thesis using assms by (simp add: addPatient_def Let_def)
next
  case False
  from assms obtain p where "p \<in> set (rows s)" "pid p = i" by (auto simp: visited_in_def)
  with False have "next_id s \<noteq> i" by auto
  with False assms show ?thesis by (auto simp: addPatient_def Let_def visited_in_def)
qed

lemma visited_in_apply: "visited_in i (rows s) \<Longrightarrow> visited_in i (rows (apply_queue_op s x))"
  by (cases x) (simp_all add: visited_in_addPatient visited_in_markVisited)

lemma visited_in_run: "visited_in i (rows s) \<Longrightarrow> visited_in i (rows (run_queue_ops s ops))"
  unfolding run_queue_ops_def
  by (induction ops arbitrary: s) (simp_all add: visited_in_apply)

lemma markVisited_success_visited_in:
  assumes "snd (markVisited s (Number i)) = Inr (Some u, None)"
  shows "visited_in i (rows (fst (markVisited s (Number i))))"
proof (cases "filter (\<lambda>p. pid p = i) (rows s)")
  case Nil
  with assms show ?thesis by (simp add: markVisited_def int4_param_def split: if_splits)
next
  case (Cons r rs)
  then have "r \<in> set (filter (\<lambda>p. pid p = i) (rows s))" by simp
  then have r: "r \<in> set (rows s)" "pid r = i" by simp_all
  show ?thesis
  proof (cases "status r = ''Visited''")
    case True
    with Cons assms show ?thesis by (simp add: markVisited_def int4_param_def split: if_splits)
  next
    case False
    from assms have "int4 i" by (auto simp: markVisited_def int4_param_def split: if_splits)
    with False Cons have "rows (fst (markVisited s (Number i))) = visit_rows i (rows s)"
      by (simp add: markVisited_def int4_param_Number Let_def split: list.splits)
    with visit_rows_visited_in [OF r(1)] r(2) show ?thesis by simp
  qed
qed

text \<open>
  Claim C3. If the patient with id \<open>i\<close> is Visited, then after any sequence of enqueue,
  listWaiting, markVisited and stats calls it is still Visited (no row with that id has
  another status) and no entry of the listing has that id; and after a successful
  \<open>markVisited\<close> of \<open>i\<close> the same holds of every later table and listing.
\<close>

theorem status_monotonic:
  "(visited_in i (rows s) \<longrightarrow>
      visited_in i (rows (run_queue_ops s ops))
      \<and> (\<forall>q\<in>set (getAllPatients coll scan (run_queue_ops s ops)). pid q \<noteq> i))
   \<and> (snd (markVisited s (Number i)) = Inr (Some u, None) \<longrightarrow>
      visited_in i (rows (run_queue_ops (fst (markVisited s (Number i))) ops))
      \<and> (\<forall>q\<in>set (getAllPatients coll scan (run_queue_ops (fst (markVisited s (Number i))) ops)). pid q \<noteq> i))"
proof (intro conjI impI ballI)
  assume "visited_in i (rows s)"
  then show v: "visited_in i (rows (run_queue_ops s ops))" by (rule visited_in_run)
  fix q assume "q \<in> set (getAllPatients coll scan (run_queue_ops s ops))"
  with v show "pid q \<noteq> i" by (rule visited_in_not_listed)
next
  assume "snd (markVisited s (Number i)) = Inr (Some u, None)"
  then have "visited_in i (rows (fst (markVisited s (Number i))))" by (rule markVisited_success_visited_in)
  then show v: "visited_in i (rows (run_queue_ops (fst (markVisited s (Number i))) ops))" by (rule visited_in_run)
  fix q assume "q \<in> set (getAllPatients coll scan (run_queue_ops (fst (markVisited s (Number i))) ops))"
  with v show "pid q \<noteq> i" by (rule visited_in_not_listed)
qed

lemma status_monotonic_example:
  "visited_in 1 (rows visited_table)"
  "snd (markVisited waiting_table (Number 1)) = Inr (Some visited_patient, None)"
  by (simp_all add: visited_table_def waiting_table_def visited_patient_def visited_in_def
      markVisited_def int4_param_def int4_def visit_rows_def rowToPatient_select_star)

theorem status_monotonic_witness:
  "visited_in 1 (rows visited_table)
   \<and> visited_in 1 (rows (run_queue_ops visited_table later_ops))
   \<and> 1 \<notin> pid ` set (getAllPatients (\<le>) (\<lambda>p. nat (pid p)) (run_queue_ops visited_table later_ops))
   \<and> snd (markVisited waiting_table (Number 1)) = Inr (Some visited_patient, None)
   \<and> 1 \<notin> pid ` set (getAllPatients (\<le>) (\<lambda>p. nat (pid p))
         (run_queue_ops (fst (markVisited waiting_table (Number 1))) later_ops))"
  using status_monotonic [of 1 visited_table later_ops "(\<le>)" "\<lambda>p. nat (pid p)"]
    status_monotonic [of 1 waiting_table later_ops "(\<le>)" "\<lambda>p. nat (pid p)" visited_patient]
    status_monotonic_example
  by (auto simp: image_iff)

section \<open>Properties of the token extraction and the resolver\<close>

lemma dropWhile_hd: "xs \<noteq> [] \<Longrightarrow> \<not> P (hd xs) \<Longrightarrow> dropWhile P xs = xs"
  by (cases xs) simp_all

lemma js_trim_outer_clean: "outer_clean t \<Longrightarrow> js_trim t = t"
proof (cases "t = []")
  case True
  then show ?thesis by (simp add: js_trim_def)
next
  case False
  assume "outer_clean t"
  with False have h: "\<not> is_space (hd t)" and l: "\<not> is_space (last t)"
    by (simp_all add: outer_clean_def)
  have 1: "dropWhile is_space t = t" using False h by (rule dropWhile_hd)
  have "hd (rev t) = last t" using False by (simp add: hd_rev)
  with l False have 2: "dropWhile is_space (rev t) = rev t" by (intro dropWhile_hd) simp_all
  show ?thesis by (simp add: js_trim_def 1 2)
qed

lemma outer_clean_js_trim: "outer_clean (js_trim s)"
proof (cases "js_trim s = []")
  case True
  then show ?thesis by (simp add: outer_clean_def)
next
  case False
  let ?a = "dropWhile is_space s"
  let ?b = "dropWhile is_space (rev ?a)"
  have t: "js_trim s = rev ?b" by (simp add: js_trim_def)
  with False have b: "?b \<noteq> []" by simp
  then have hb: "\<not> is_space (hd ?b)" by (rule hd_dropWhile)
  have a: "?a \<noteq> []"
  proof
    assume e: "?a = []"
    have "?b = []" by (simp only: e rev.simps dropWhile.simps)
    with b show False by contradiction
  qed
  then have ha: "\<not> is_space (hd ?a)" by (rule hd_dropWhile)
  have l: "last (rev ?b) = hd ?b" using b by (simp add: last_rev)
  obtain pre where pre: "rev ?a = pre @ ?b"
    by (metis takeWhile_dropWhile_id)
  then have "?a = rev ?b @ rev pre" by (metis rev_append rev_rev_ident)
  moreover have "hd (rev ?b @ rev pre) = hd (rev ?b)" using b by (intro hd_append2) simp
  ultimately have "hd ?a = hd (rev ?b)" by metis
  with ha hb l t False show ?thesis by (simp add: outer_clean_def)
qed

lemma outer_clean_normalize_bearer: "outer_clean (normalize_bearer piece)"
  by (simp add: normalize_bearer_def outer_clean_js_trim)

lemma js_trim_pad:
  assumes "\<forall>c\<in>set a. is_space c" "\<forall>c\<in>set b. is_space c" "x \<noteq> []" "outer_clean x"
  shows "js_trim (a @ x @ b) = x"
proof -
  from assms(3,4) have h: "\<not> is_space (hd x)" and l: "\<not> is_space (last x)"
    by (simp_all add: outer_clean_def)
  have "dropWhile is_space (a @ x @ b) = dropWhile is_space (x @ b)"
    using assms(1) by (intro dropWhile_append2) simp
  also have "\<dots> = x @ b"
    using assms(3) h by (intro dropWhile_hd) simp_all
  finally have 1: "dropWhile is_space (a @ x @ b) = x @ b" .
  have "dropWhile is_space (rev b @ rev x) = dropWhile is_space (rev x)"
    using assms(2) by (intro dropWhile_append2) simp
  also have "\<dots> = rev x"
    using assms(3) l by (intro dropWhile_hd) (simp_all add: hd_rev)
  finally have "dropWhile is_space (rev b @ rev x) = rev x" .
  then show ?thesis by (simp add: js_trim_def 1)
qed

lemma strip_quotes_wrapped: "strip_quotes (CHR 0x22 # t @ [CHR 0x22]) = t"
  by (simp add: strip_quotes_def)

lemma strip_quotes_id: "t \<noteq> [] \<Longrightarrow> hd t \<noteq> CHR 0x22 \<Longrightarrow> last t \<noteq> CHR 0x22 \<Longrightarrow> strip_quotes t = t"
  by (cases t) (simp_all add: strip_quotes_def)

lemma quote_not_space: "\<not> is_space (CHR 0x22)"
  by (simp add: is_space_def)

lemma normalize_bearer_wrapped:
  assumes "\<forall>c\<in>set a. is_space c" "\<forall>c\<in>set b. is_space c" "outer_clean t"
  shows "normalize_bearer (a @ CHR 0x22 # t @ CHR 0x22 # b) = t"
proof -
  have oc: "outer_clean (CHR 0x22 # t @ [CHR 0x22])"
    by (simp add: outer_clean_def quote_not_space)
  have "js_trim (a @ (CHR 0x22 # t @ [CHR 0x22]) @ b) = CHR 0x22 # t @ [CHR 0x22]"
    by (rule js_trim_pad [OF assms(1,2) _ oc]) simp
  then have "js_trim (a @ CHR 0x22 # t @ CHR 0x22 # b) = CHR 0x22 # t @ [CHR 0x22]" by simp
  then show ?thesis
    by (simp only: normalize_bearer_def strip_quotes_wrapped js_trim_outer_clean [OF assms(3)])
qed

lemma normalize_bearer_id:
  assumes "t \<noteq> []" "\<forall>c\<in>set t. \<not> is_space c \<and> c \<noteq> CHR 0x22"
  shows "normalize_bearer t = t"
proof -
  from assms have "outer_clean t" by (simp add: outer_clean_def)
  then have 1: "js_trim t = t" by (rule js_trim_outer_clean)
  have 2: "strip_quotes t = t" using assms by (intro strip_quotes_id) simp_all
  show ?thesis by (simp add: normalize_bearer_def 1 2)
qed

lemma split_on_no_sep: "c \<notin> set s \<Longrightarrow> split_on c s = [s]"
  by (induction s) auto

lemma split_on_prefix: "c \<notin> set p \<Longrightarrow> split_on c (p @ c # s) = p # split_on c s"
  by (induction p) auto

lemma space_is_space: "is_space CHR '' ''"
  by (simp add: is_space_def)

lemma lower_bearer: "toLowerCase ''Bearer '' = ''bearer ''"
  by code_simp

lemma extractToken_bearer:
  assumes "authorization req = Some (''Bearer '' @ tok)"
    "tok \<noteq> []" "\<forall>c\<in>set tok. \<not> is_space c \<and> c \<noteq> CHR 0x22" "usable_bearer tok"
  shows "extractToken cfg req = Inr tok"
proof -
  have ns: "CHR '' '' \<notin> set tok" using assms(3) space_is_space by blast
  have "split_on CHR '' '' (''Bearer'' @ CHR '' '' # tok) = ''Bearer'' # split_on CHR '' '' tok"
    by (rule split_on_prefix) simp
  then have sp: "take 2 (split_on CHR '' '' (''Bearer '' @ tok)) = [''Bearer'', tok]"
    by (simp add: split_on_no_sep [OF ns])
  have "toLowerCase (''Bearer '' @ tok) = ''bearer '' @ toLowerCase tok"
    using lower_bearer by (simp add: toLowerCase_def)
  then have sw: "startsWith (toLowerCase (''Bearer '' @ tok)) ''bearer ''"
    by (simp add: startsWith_def)
  have nb: "normalize_bearer tok = tok" by (rule normalize_bearer_id [OF assms(2,3)])
  show ?thesis
    unfolding extractToken_def
    by (simp only: assms(1) option.case sw sp list.case Let_def nb assms(4) if_True) simp
qed

lemma digit_char_facts_all:
  "\<forall>d\<in>set [0..<10]. is_digit (digit_char d) \<and> digit_val (digit_char d) = int d
      \<and> \<not> is_space (digit_char d) \<and> digit_char d \<noteq> CHR ''-'' \<and> digit_char d \<noteq> CHR ''+''"
  by code_simp

lemma digit_char_facts:
  assumes "d < 10"
  shows "is_digit (digit_char d)" "digit_val (digit_char d) = int d"
    "\<not> is_space (digit_char d)" "digit_char d \<noteq> CHR ''-''" "digit_char d \<noteq> CHR ''+''"
proof -
  from assms have "d \<in> set [0..<10]" by simp
  with digit_char_facts_all
  have "is_digit (digit_char d) \<and> digit_val (digit_char d) = int d
      \<and> \<not> is_space (digit_char d) \<and> digit_char d \<noteq> CHR ''-'' \<and> digit_char d \<noteq> CHR ''+''"
    by (rule bspec)
  then show "is_digit (digit_char d)" "digit_val (digit_char d) = int d"
    "\<not> is_space (digit_char d)" "digit_char d \<noteq> CHR ''-''" "digit_char d \<noteq> CHR ''+''"
    by simp_all
qed

lemma digits_value_snoc: "digits_value (z @ [c]) = 10 * digits_value z + digit_val c"
  by (simp add: digits_value_def)

lemma nat_digits_props:
  "nat_digits n \<noteq> [] \<and> (\<forall>c\<in>set (nat_digits n). is_digit c) \<and> digits_value (nat_digits n) = int n
   \<and> \<not> is_space (hd (nat_digits n)) \<and> hd (nat_digits n) \<noteq> CHR ''-'' \<and> hd (nat_digits n) \<noteq> CHR ''+''"
proof (induction n rule: nat_digits.induct)
  case (1 n)
  show ?case
  proof (cases "n < 10")
    case True
    have e: "nat_digits n = [digit_char n]" using True by simp
    show ?thesis
      unfolding e using digit_char_facts [OF True] by (simp add: digits_value_def)
  next
    case False
    have m: "n mod 10 < 10" by simp
    have e: "nat_digits n = nat_digits (n div 10) @ [digit_char (n mod 10)]"
      using False by (subst nat_digits.simps) simp
    note ih = 1 [OF False]
    have v: "digits_value (nat_digits n) = int n"
      unfolding e digits_value_snoc using ih digit_char_facts(2) [OF m] by (simp add: zmod_int zdiv_int)
    from ih digit_char_facts(1) [OF m] v show ?thesis
      unfolding e by (simp del: nat_digits.simps)
  qed
qed

lemma parseInt_digits:
  assumes "z \<noteq> []" "\<forall>c\<in>set z. is_digit c" "\<not> is_space (hd z)" "hd z \<noteq> CHR ''-''" "hd z \<noteq> CHR ''+''"
  shows "parseInt z = round_to_double (digits_value z)"
    "parseInt (CHR ''-'' # z) = round_to_double (- digits_value z)"
proof -
  from assms(1) obtain c r where z: "z = c # r" by (cases z) auto
  have d: "dropWhile is_space z = z" using assms(1,3) by (rule dropWhile_hd)
  have t: "takeWhile is_digit z = z" using assms(2) by (simp add: takeWhile_eq_all_conv)
  from assms(4,5) z have c: "c \<noteq> CHR ''-''" "c \<noteq> CHR ''+''" by simp_all
  have "parseInt (c # r) = round_to_double (digits_value (c # r))"
    unfolding parseInt_def parse_integer_def using d [unfolded z] t [unfolded z] c by (simp add: Let_def)
  then show "parseInt z = round_to_double (digits_value z)" by (simp only: z)
  have ms: "\<not> is_space CHR ''-''" by code_simp
  show "parseInt (CHR ''-'' # z) = round_to_double (- digits_value z)"
    unfolding parseInt_def parse_integer_def using ms assms(1) by (simp add: t Let_def)
qed

lemma round_to_double_safe: "safe_integer n \<Longrightarrow> round_to_double n = Number n"
  unfolding round_to_double_def safe_integer_def Let_def by auto

lemma parseInt_number_to_string:
  assumes "safe_integer n"
  shows "parseInt (number_to_string n) = Number n"
proof -
  have p: "parseInt (nat_digits m) = round_to_double (int m)"
    "parseInt (CHR ''-'' # nat_digits m) = round_to_double (- int m)" for m
    using parseInt_digits [of "nat_digits m"] nat_digits_props [of m] by simp_all
  show ?thesis
  proof (cases "n < 0")
    case True
    then show ?thesis
      using p(2) [of "nat (- n)"] round_to_double_safe [OF assms] by (simp add: number_to_string_def)
  next
    case False
    then show ?thesis
      using p(1) [of "nat n"] round_to_double_safe [OF assms] by (simp add: number_to_string_def)
  qed
qed

lemma coerce_user_id_integer:
  "coerce_user_id (Num n) = Number n"
  "safe_integer n \<Longrightarrow> coerce_user_id (Str (number_to_string n)) = Number n"
  by (simp_all add: coerce_user_id_def js_String_def parseInt_number_to_string)

lemma resolve_after_decode:
  assumes "extractToken cfg req = Inr token" "decodeToken codec cfg token now = Inr payload"
    "payload ''sub'' = Some v" "v \<noteq> Undefined" "v \<noteq> Null"
  shows "getCurrentUser codec cfg req now =
           Inr \<lparr>user_id = coerce_user_id v, email = get_prop payload ''email'', role = get_prop payload ''role''\<rparr>"
    "authMiddleware codec cfg req now =
           Next \<lparr>user_id = coerce_user_id v, email = get_prop payload ''email'', role = get_prop payload ''role''\<rparr>"
  using assms by (simp_all add: getCurrentUser_def authMiddleware_def get_prop_def)

lemma resolve_no_token:
  assumes "extractToken cfg req = Inl e"
  shows "getCurrentUser codec cfg req now = Inl e" "authMiddleware codec cfg req now = Respond 401 (error_message e)"
  using assms by (simp_all add: getCurrentUser_def authMiddleware_def)

lemma extractToken_nothing:
  assumes "authorization req = None" "case cookies req of None \<Rightarrow> True | Some cs \<Rightarrow> cs (JWT_COOKIE_NAME cfg) = None"
  shows "extractToken cfg req = Inl invalid_credentials"
  using assms by (simp add: extractToken_def cookie_token_def split: option.splits)

lemma lifetime_default: "ACCESS_TOKEN_EXPIRE_MINUTES * 60 = 86400"
  by (simp add: ACCESS_TOKEN_EXPIRE_MINUTES_def)

lemma createAccessToken_default:
  assumes "data ''sub'' = Some v" "v \<noteq> Undefined" "data ''exp'' = None"
  shows "createAccessToken codec cfg data None now =
     Inr (serialize codec
       \<lparr>j_alg = JWT_ALGORITHM cfg,
        j_payload = data(''sub'' \<mapsto> Str (js_String v), ''iat'' \<mapsto> Num now, ''exp'' \<mapsto> Num (now + 86400)),
        j_sig = mac codec (JWT_ALGORITHM cfg) (JWT_SECRET cfg)
          (data(''sub'' \<mapsto> Str (js_String v), ''iat'' \<mapsto> Num now, ''exp'' \<mapsto> Num (now + 86400)))\<rparr>)"
  using assms by (simp add: createAccessToken_def jwt_sign_def lifetime_default Let_def)

lemma decodeToken_bad_signature:
  assumes "parse codec t = Some j" "j_sig j \<noteq> mac codec (j_alg j) (JWT_SECRET cfg) (j_payload j)"
  shows "decodeToken codec cfg t now = Inl invalid_credentials"
  using assms by (auto simp: decodeToken_def jwt_verify_def)

lemma decodeToken_expired:
  assumes "parse codec t = Some j" "j_payload j ''exp'' = Some (Num e)" "e \<le> now"
  shows "decodeToken codec cfg t now = Inl invalid_credentials"
  using assms by (simp add: decodeToken_def jwt_verify_def)

lemma decodeToken_valid:
  assumes "parse codec t = Some j" "j_alg j = JWT_ALGORITHM cfg"
    "j_sig j = mac codec (j_alg j) (JWT_SECRET cfg) (j_payload j)"
    "j_payload j ''exp'' = Some (Num e)" "now < e"
  shows "decodeToken codec cfg t now = Inr (j_payload j)"
  using assms by (simp add: decodeToken_def jwt_verify_def)

text \<open>
  Claim C10. When the token of the request verifies and its subject is a string from
  which \<open>parseInt\<close> reads no number (as \<open>abc\<close>), \<open>getCurrentUser\<close> and the middleware
  do not fail: they produce a user whose \<open>user_id\<close> is NaN.
\<close>

theorem resolve_unguarded_NaN:
  assumes "extractToken cfg req = Inr token" "decodeToken codec cfg token now = Inr payload"
    "payload ''sub'' = Some (Str s)" "parseInt s = NaN"
  shows "getCurrentUser codec cfg req now =
           Inr \<lparr>user_id = NaN, email = get_prop payload ''email'', role = get_prop payload ''role''\<rparr>
       \<and> authMiddleware codec cfg req now =
           Next \<lparr>user_id = NaN, email = get_prop payload ''email'', role = get_prop payload ''role''\<rparr>"
proof -
  have "coerce_user_id (Str s) = NaN" using assms(4) by (simp add: coerce_user_id_def js_String_def)
  with resolve_after_decode [OF assms(1,2,3)] show ?thesis by simp
qed

lemma nan_example:
  "extractToken example_config bearer_request = Inr ''h.p.s''"
  "decodeToken nan_codec example_config ''h.p.s'' 0 = Inr nan_body"
  "nan_body ''sub'' = Some (Str ''abc'')"
  "parseInt ''abc'' = NaN"
proof -
  show "extractToken example_config bearer_request = Inr ''h.p.s''"
    unfolding example_config_def bearer_request_def by code_simp
  show "decodeToken nan_codec example_config ''h.p.s'' 0 = Inr nan_body"
    unfolding example_config_def nan_codec_def nan_body_def
    by (simp add: decodeToken_def jwt_verify_def single_token_codec_def get_prop_def js_String_def)
  show "nan_body ''sub'' = Some (Str ''abc'')" by (simp add: nan_body_def)
  have "parse_integer ''abc'' = None" by code_simp
  then show "parseInt ''abc'' = NaN" by (simp add: parseInt_def)
qed

theorem resolve_unguarded_NaN_witness:
  "extractToken example_config bearer_request = Inr ''h.p.s''
   \<and> decodeToken nan_codec example_config ''h.p.s'' 0 = Inr nan_body
   \<and> nan_body ''sub'' = Some (Str ''abc'') \<and> parseInt ''abc'' = NaN
   \<and> getCurrentUser nan_codec example_config bearer_request 0 =
        Inr \<lparr>user_id = NaN, email = Str ''a@b.c'', role = Undefined\<rparr>
   \<and> authMiddleware nan_codec example_config bearer_request 0 =
        Next \<lparr>user_id = NaN, email = Str ''a@b.c'', role = Undefined\<rparr>"
  using resolve_unguarded_NaN [OF nan_example] nan_example
  by (simp add: get_prop_def nan_body_def)

lemma seven_string: "number_to_string 7 = ''7''"
  by code_simp

lemma example_token:
  "createAccessToken example_codec example_config example_claims None 1000 = Inr ''h.p.s''"
  "reads_back example_codec ''h.p.s''"
  "decodeToken example_codec example_config ''h.p.s'' 1001 = Inr example_body"
proof -
  show "createAccessToken example_codec example_config example_claims None 1000 = Inr ''h.p.s''"
    unfolding example_config_def example_claims_def example_codec_def example_body_def
    by (simp add: createAccessToken_def jwt_sign_def single_token_codec_def lifetime_default
        get_prop_def seven_string js_String_def)
  show "reads_back example_codec ''h.p.s''"
    by (simp add: reads_back_def example_codec_def single_token_codec_def)
  show "decodeToken example_codec example_config ''h.p.s'' 1001 = Inr example_body"
    unfolding example_config_def example_codec_def example_body_def
    by (simp add: decodeToken_def jwt_verify_def single_token_codec_def get_prop_def js_String_def)
qed

lemma example_claims_fields:
  "example_claims ''sub'' = Some (Num 7)" "Num 7 \<noteq> Undefined" "example_claims ''exp'' = None"
  by (simp_all add: example_claims_def)

text \<open>
  Claim C5, amended. A request with no Authorization header and no cookie of the
  configured name is refused with the invalid-credentials error (status 401 in the
  middleware). A request whose header is \<open>Bearer\<close> followed by a well-formed token that
  verifies, with a subject that is the integer \<open>n\<close> either as a number or as its decimal
  string, yields a user whose \<open>user_id\<close> is the number \<open>n\<close>.
\<close>

theorem resolve_identity:
  "(authorization req = None \<and> (case cookies req of None \<Rightarrow> True | Some cs \<Rightarrow> cs (JWT_COOKIE_NAME cfg) = None)
      \<longrightarrow> getCurrentUser codec cfg req now = Inl invalid_credentials
        \<and> authMiddleware codec cfg req now = Respond 401 ''Invalid authentication credentials'')
   \<and> (authorization req = Some (''Bearer '' @ tok) \<and> wellformed_bearer tok
        \<and> decodeToken codec cfg tok now = Inr payload \<and> safe_integer n
        \<and> (payload ''sub'' = Some (Num n) \<or> payload ''sub'' = Some (Str (number_to_string n)))
      \<longrightarrow> getCurrentUser codec cfg req now =
            Inr \<lparr>user_id = Number n, email = get_prop payload ''email'', role = get_prop payload ''role''\<rparr>
        \<and> authMiddleware codec cfg req now =
            Next \<lparr>user_id = Number n, email = get_prop payload ''email'', role = get_prop payload ''role''\<rparr>)"
proof (intro conjI impI)
  assume a: "authorization req = None \<and> (case cookies req of None \<Rightarrow> True | Some cs \<Rightarrow> cs (JWT_COOKIE_NAME cfg) = None)"
  then have e: "extractToken cfg req = Inl invalid_credentials" by (intro extractToken_nothing) simp_all
  from resolve_no_token(1) [OF e] show "getCurrentUser codec cfg req now = Inl invalid_credentials" .
  from resolve_no_token(2) [OF e]
  show "authMiddleware codec cfg req now = Respond 401 ''Invalid authentication credentials''"
    by (simp add: error_message_def invalid_credentials_def)
next
  assume a: "authorization req = Some (''Bearer '' @ tok) \<and> wellformed_bearer tok
        \<and> decodeToken codec cfg tok now = Inr payload \<and> safe_integer n
        \<and> (payload ''sub'' = Some (Num n) \<or> payload ''sub'' = Some (Str (number_to_string n)))"
  then have w: "tok \<noteq> []" "\<forall>c\<in>set tok. \<not> is_space c \<and> c \<noteq> CHR 0x22" "usable_bearer tok"
    by (simp_all add: wellformed_bearer_def)
  from a have h: "authorization req = Some (''Bearer '' @ tok)" by simp
  have e: "extractToken cfg req = Inr tok" by (rule extractToken_bearer [OF h w])
  from a have d: "decodeToken codec cfg tok now = Inr payload" by simp
  from a consider "payload ''sub'' = Some (Num n)" | "payload ''sub'' = Some (Str (number_to_string n))"
    by blast
  then have r: "getCurrentUser codec cfg req now =
            Inr \<lparr>user_id = Number n, email = get_prop payload ''email'', role = get_prop payload ''role''\<rparr>
        \<and> authMiddleware codec cfg req now =
            Next \<lparr>user_id = Number n, email = get_prop payload ''email'', role = get_prop payload ''role''\<rparr>"
  proof cases
    case 1
    from resolve_after_decode [OF e d 1] show ?thesis by (simp add: coerce_user_id_integer)
  next
    case 2
    from a have "safe_integer n" by simp
    with resolve_after_decode [OF e d 2] show ?thesis by (simp add: coerce_user_id_integer)
  qed
  from r show "getCurrentUser codec cfg req now =
            Inr \<lparr>user_id = Number n, email = get_prop payload ''email'', role = get_prop payload ''role''\<rparr>" ..
  from r show "authMiddleware codec cfg req now =
            Next \<lparr>user_id = Number n, email = get_prop payload ''email'', role = get_prop payload ''role''\<rparr>" ..
qed

lemma wellformed_example: "wellformed_bearer ''h.p.s''"
  unfolding wellformed_bearer_def by code_simp

theorem resolve_identity_witness:
  "getCurrentUser example_codec example_config \<lparr>authorization = None, cookies = None\<rparr> 1001
     = Inl invalid_credentials
   \<and> wellformed_bearer ''h.p.s''
   \<and> decodeToken example_codec example_config ''h.p.s'' 1001 = Inr example_body
   \<and> safe_integer 7 \<and> example_body ''sub'' = Some (Str (number_to_string 7))
   \<and> getCurrentUser example_codec example_config bearer_request 1001
     = Inr \<lparr>user_id = Number 7, email = Str ''a@b.c'', role = Str ''user''\<rparr>"
  using resolve_identity [where req = "\<lparr>authorization = None, cookies = None\<rparr>" and cfg = example_config
      and codec = example_codec and now = 1001]
    resolve_identity [where req = bearer_request and tok = "''h.p.s''" and codec = example_codec
      and cfg = example_config and now = 1001 and payload = example_body and n = 7]
    wellformed_example example_token(3)
  by (simp add: bearer_request_def safe_integer_def seven_string example_body_def get_prop_def)

text \<open>
  Claim C5 as stated fails for verified tokens whose subject is a string that is not the
  decimal form of an integer: for the subject \<open>12abc\<close> the user id is 12, which is not the
  subject, and for the subject \<open>abc\<close> it is NaN, which is not an integer.
\<close>

lemma partial_example:
  "decodeToken partial_codec example_config ''h.p.s'' 0 = Inr partial_body"
  "parseInt ''12abc'' = Number 12"
  "number_to_string 12 = ''12''"
proof -
  show "decodeToken partial_codec example_config ''h.p.s'' 0 = Inr partial_body"
    unfolding example_config_def partial_codec_def partial_body_def
    by (simp add: decodeToken_def jwt_verify_def single_token_codec_def get_prop_def js_String_def)
  have "parse_integer ''12abc'' = Some 12" by code_simp
  then show "parseInt ''12abc'' = Number 12" by (simp add: parseInt_def round_to_double_def)
  show "number_to_string 12 = ''12''" by code_simp
qed

theorem resolve_identity_counterexample:
  "wellformed_bearer ''h.p.s''
   \<and> decodeToken partial_codec example_config ''h.p.s'' 0 = Inr partial_body
   \<and> partial_body ''sub'' = Some (Str ''12abc'')
   \<and> getCurrentUser partial_codec example_config bearer_request 0 =
        Inr \<lparr>user_id = Number 12, email = Undefined, role = Undefined\<rparr>
   \<and> number_to_string 12 \<noteq> ''12abc''
   \<and> decodeToken nan_codec example_config ''h.p.s'' 0 = Inr nan_body
   \<and> nan_body ''sub'' = Some (Str ''abc'')
   \<and> getCurrentUser nan_codec example_config bearer_request 0 =
        Inr \<lparr>user_id = NaN, email = Str ''a@b.c'', role = Undefined\<rparr>"
proof -
  have p: "partial_body ''sub'' = Some (Str ''12abc'')" by (simp add: partial_body_def)
  have 1: "getCurrentUser partial_codec example_config bearer_request 0 =
        Inr \<lparr>user_id = Number 12, email = Undefined, role = Undefined\<rparr>"
    using resolve_after_decode(1) [OF nan_example(1) partial_example(1) p] partial_example(2)
    by (simp add: coerce_user_id_def js_String_def get_prop_def partial_body_def)
  have 2: "getCurrentUser nan_codec example_config bearer_request 0 =
        Inr \<lparr>user_id = NaN, email = Str ''a@b.c'', role = Undefined\<rparr>"
    using resolve_after_decode(1) [OF nan_example(1,2,3)] nan_example(4)
    by (simp add: coerce_user_id_def js_String_def get_prop_def nan_body_def)
  from 1 2 p wellformed_example partial_example nan_example show ?thesis by simp
qed

lemma extractToken_header:
  assumes "authorization req = Some h" "h \<noteq> []" "startsWith (toLowerCase h) ''bearer ''"
    "take 2 (split_on CHR '' '' h) = [w, piece]" "usable_bearer (normalize_bearer piece)"
  shows "extractToken cfg req = Inr (normalize_bearer piece)"
  using assms by (simp add: extractToken_def Let_def)

lemma extractToken_cookie:
  assumes "authorization req = None" "cookies req = Some cs" "cs (JWT_COOKIE_NAME cfg) = Some ct" "ct \<noteq> []"
  shows "extractToken cfg req = Inr ct"
  using assms by (simp add: extractToken_def cookie_token_def)

text \<open>
  A token taken from the Authorization header is normalized: it neither starts nor ends
  with white space, and a token wrapped in quotes with white space around comes out
  bare.
\<close>

lemma extractToken_header_normalized:
  "(authorization req = Some h \<and> h \<noteq> [] \<and> startsWith (toLowerCase h) ''bearer ''
      \<and> take 2 (split_on CHR '' '' h) = [w, piece] \<and> usable_bearer (normalize_bearer piece)
      \<longrightarrow> extractToken cfg req = Inr (normalize_bearer piece) \<and> outer_clean (normalize_bearer piece))
   \<and> ((\<forall>c\<in>set a. is_space c) \<and> (\<forall>c\<in>set b. is_space c) \<and> outer_clean t
      \<longrightarrow> normalize_bearer (a @ CHR 0x22 # t @ CHR 0x22 # b) = t)"
  using extractToken_header [of req h w piece cfg] outer_clean_normalize_bearer [of piece]
    normalize_bearer_wrapped [of a b t]
  by blast

lemma quoted_example:
  "startsWith (toLowerCase (''Bearer '' @ quoted_token)) ''bearer ''"
  "take 2 (split_on CHR '' '' (''Bearer '' @ quoted_token)) = [''Bearer'', quoted_token]"
  "usable_bearer (normalize_bearer quoted_token)"
  "normalize_bearer quoted_token = ''a.b''"
  "is_space (hd quoted_token)"
  unfolding quoted_token_def by code_simp+

text \<open>
  Claim C6. The token passed to verification should be normalized whether it comes from
  the header or from the cookie; the code normalizes only the header's. The same text,
  a token in quotes between two tabs, comes out bare from the header and unchanged, white
  space and quotes included, from the cookie.
\<close>

theorem extractToken_cookie_not_normalized:
  "extractToken example_config
     \<lparr>authorization = Some (''Bearer '' @ quoted_token), cookies = None\<rparr> = Inr ''a.b''
   \<and> extractToken example_config
     \<lparr>authorization = None, cookies = Some [''access_token'' \<mapsto> quoted_token]\<rparr> = Inr quoted_token
   \<and> is_space (hd quoted_token) \<and> normalize_bearer quoted_token = ''a.b'' \<and> quoted_token \<noteq> ''a.b''"
proof -
  have 1: "extractToken example_config
     \<lparr>authorization = Some (''Bearer '' @ quoted_token), cookies = None\<rparr> = Inr ''a.b''"
    using extractToken_header [where req = "\<lparr>authorization = Some (''Bearer '' @ quoted_token), cookies = None\<rparr>"
        and h = "''Bearer '' @ quoted_token" and w = "''Bearer''" and piece = quoted_token
        and cfg = example_config] quoted_example
    by simp
  have 2: "extractToken example_config
     \<lparr>authorization = None, cookies = Some [''access_token'' \<mapsto> quoted_token]\<rparr> = Inr quoted_token"
    using extractToken_cookie [where req = "\<lparr>authorization = None, cookies = Some [''access_token'' \<mapsto> quoted_token]\<rparr>"
        and cfg = example_config and cs = "[''access_token'' \<mapsto> quoted_token]" and ct = quoted_token]
    by (simp add: example_config_def quoted_token_def)
  have 3: "quoted_token \<noteq> ''a.b''" by (simp add: quoted_token_def)
  from 1 2 3 quoted_example show ?thesis by simp
qed

section \<open>Properties of issuing and verifying tokens\<close>

text \<open>
  Claim C4, amended. A token issued for claims with a subject and no expiry of their own
  verifies, until 86400 seconds after issuance, to a payload with the email and role
  given and with the canonical string form of the subject given; from then on it is
  refused; and any token whose signature is not the one computed under the configured
  secret is refused. (The token's text is assumed to be read back as it was written.)
\<close>

theorem token_roundtrip:
  assumes "data ''sub'' = Some v" "v \<noteq> Undefined" "data ''exp'' = None"
    and "createAccessToken codec cfg data None now = Inr tok" "reads_back codec tok"
  shows "(now' < now + 86400 \<longrightarrow>
           (\<exists>payload. decodeToken codec cfg tok now' = Inr payload
              \<and> payload ''sub'' = Some (Str (js_String v))
              \<and> payload ''email'' = data ''email'' \<and> payload ''role'' = data ''role''))
       \<and> (now + 86400 \<le> now' \<longrightarrow> decodeToken codec cfg tok now' = Inl invalid_credentials)
       \<and> (parse codec t = Some j \<and> j_sig j \<noteq> mac codec (j_alg j) (JWT_SECRET cfg) (j_payload j)
            \<longrightarrow> decodeToken codec cfg t now' = Inl invalid_credentials)"
proof -
  let ?body = "data(''sub'' \<mapsto> Str (js_String v), ''iat'' \<mapsto> Num now, ''exp'' \<mapsto> Num (now + 86400))"
  let ?j = "\<lparr>j_alg = JWT_ALGORITHM cfg, j_payload = ?body,
             j_sig = mac codec (JWT_ALGORITHM cfg) (JWT_SECRET cfg) ?body\<rparr>"
  have "serialize codec ?j = tok"
    using createAccessToken_default [OF assms(1,2,3), of codec cfg now] assms(4) by simp
  with assms(5) have p: "parse codec tok = Some ?j" by (simp add: reads_back_def)
  have e: "j_payload ?j ''exp'' = Some (Num (now + 86400))" by simp
  have 1: "now' < now + 86400 \<longrightarrow>
           (\<exists>payload. decodeToken codec cfg tok now' = Inr payload
              \<and> payload ''sub'' = Some (Str (js_String v))
              \<and> payload ''email'' = data ''email'' \<and> payload ''role'' = data ''role'')"
  proof
    assume lt: "now' < now + 86400"
    have "decodeToken codec cfg tok now' = Inr (j_payload ?j)"
      by (rule decodeToken_valid [OF p _ _ e lt]) simp_all
    then show "\<exists>payload. decodeToken codec cfg tok now' = Inr payload
              \<and> payload ''sub'' = Some (Str (js_String v))
              \<and> payload ''email'' = data ''email'' \<and> payload ''role'' = data ''role''"
      by simp
  qed
  have 2: "now + 86400 \<le> now' \<longrightarrow> decodeToken codec cfg tok now' = Inl invalid_credentials"
    using decodeToken_expired [OF p e] by blast
  have 3: "parse codec t = Some j \<and> j_sig j \<noteq> mac codec (j_alg j) (JWT_SECRET cfg) (j_payload j)
            \<longrightarrow> decodeToken codec cfg t now' = Inl invalid_credentials"
    using decodeToken_bad_signature [of codec t j cfg now'] by blast
  from 1 2 3 show ?thesis by (intro conjI)
qed

text \<open>
  Claim C4 as stated fails for a subject given as a number: the payload recovered carries
  the string \<open>7\<close>, not the number 7 that was given.
\<close>

theorem token_roundtrip_counterexample:
  "createAccessToken example_codec example_config example_claims None 1000 = Inr ''h.p.s''
   \<and> reads_back example_codec ''h.p.s''
   \<and> decodeToken example_codec example_config ''h.p.s'' 1001 = Inr example_body
   \<and> example_claims ''sub'' = Some (Num 7) \<and> example_body ''sub'' = Some (Str ''7'')
   \<and> example_body ''sub'' \<noteq> example_claims ''sub''"
  using example_token by (simp add: example_claims_def example_body_def)

theorem token_roundtrip_witness:
  "example_claims ''sub'' = Some (Num 7) \<and> example_claims ''exp'' = None
   \<and> createAccessToken example_codec example_config example_claims None 1000 = Inr ''h.p.s''
   \<and> reads_back example_codec ''h.p.s''
   \<and> (\<exists>payload. decodeToken example_codec example_config ''h.p.s'' 1001 = Inr payload
        \<and> payload ''sub'' = Some (Str ''7'')
        \<and> payload ''email'' = Some (Str ''a@b.c'') \<and> payload ''role'' = Some (Str ''user''))
   \<and> decodeToken example_codec example_config ''h.p.s'' 87400 = Inl invalid_credentials"
  using token_roundtrip [OF example_claims_fields example_token(1,2), of 1001]
    token_roundtrip [OF example_claims_fields example_token(1,2), of 87400]
    example_claims_fields example_token
  by (simp add: js_String_def seven_string example_claims_def)

text \<open>
  Claim C8. A token issued without an expiry override is the text of a signed token whose
  payload has issuedAt equal to the time of issuance, expiresAt exactly 86400 seconds
  later, and as subject the string form of the subject given; the signature is computed
  over that payload.
\<close>

theorem issue_expiry_and_subject:
  assumes "data ''sub'' = Some v" "v \<noteq> Undefined" "data ''exp'' = None"
  shows "ACCESS_TOKEN_EXPIRE_MINUTES * 60 = 86400
       \<and> (\<exists>body. createAccessToken codec cfg data None now =
           Inr (serialize codec \<lparr>j_alg = JWT_ALGORITHM cfg, j_payload = body,
                                 j_sig = mac codec (JWT_ALGORITHM cfg) (JWT_SECRET cfg) body\<rparr>)
         \<and> body ''iat'' = Some (Num now) \<and> body ''exp'' = Some (Num (now + 86400))
         \<and> body ''sub'' = Some (Str (js_String v)))"
proof
  show "ACCESS_TOKEN_EXPIRE_MINUTES * 60 = 86400" by (rule lifetime_default)
  show "\<exists>body. createAccessToken codec cfg data None now =
           Inr (serialize codec \<lparr>j_alg = JWT_ALGORITHM cfg, j_payload = body,
                                 j_sig = mac codec (JWT_ALGORITHM cfg) (JWT_SECRET cfg) body\<rparr>)
         \<and> body ''iat'' = Some (Num now) \<and> body ''exp'' = Some (Num (now + 86400))
         \<and> body ''sub'' = Some (Str (js_String v))"
    using createAccessToken_default [OF assms, of codec cfg now]
    by (intro exI [of _ "data(''sub'' \<mapsto> Str (js_String v), ''iat'' \<mapsto> Num now, ''exp'' \<mapsto> Num (now + 86400))"]) simp
qed

theorem issue_expiry_and_subject_witness:
  "example_claims ''sub'' = Some (Num 7) \<and> example_claims ''exp'' = None
   \<and> ACCESS_TOKEN_EXPIRE_MINUTES * 60 = 86400
   \<and> (\<exists>body. createAccessToken example_codec example_config example_claims None 1000 =
           Inr (serialize example_codec \<lparr>j_alg = ''HS256'', j_payload = body,
                                 j_sig = mac example_codec ''HS256'' ''secret'' body\<rparr>)
         \<and> body ''iat'' = Some (Num 1000) \<and> body ''exp'' = Some (Num 87400)
         \<and> body ''sub'' = Some (Str ''7''))"
  using issue_expiry_and_subject [OF example_claims_fields, of example_codec example_config 1000]
    example_claims_fields
  by (simp add: js_String_def seven_string example_config_def)

section \<open>Properties of the user directory\<close>





end
